theory Spec2Isabelle
  imports Main "HOL-Library.AList"
begin

section \<open>Todo records and GraphQL payloads (scripts/sync-amplify-data.js)\<close>

text \<open>
  A Todo item as the list query selects it: \<open>id content completed createdAt updatedAt\<close>.
  The two timestamps are the ISO-8601 strings of the JSON response. The field \<open>id\<close> is
  called \<open>id_todo\<close> here, \<open>id\<close> being the identity function of HOL.
\<close>

record todo =
  id_todo :: string
  content :: string
  completed :: bool
  createdAt :: string
  updatedAt :: string

text \<open>
  \<open>new Date(s).getTime()\<close> is a number of milliseconds since the epoch, or NaN when
  \<open>s\<close> is no date. The parser is JavaScript's, not the repository's, so every function
  that compares timestamps takes it as the parameter \<open>getTime\<close>, with \<open>None\<close> for NaN.
  \<open>a > b\<close> on two such numbers is false as soon as one of them is NaN.
\<close>

type_synonym date_parser = "string \<Rightarrow> int option"

fun js_gt :: "int option \<Rightarrow> int option \<Rightarrow> bool" where
  "js_gt (Some a) (Some b) = (a > b)"
| "js_gt _ _ = False"

text \<open>
  The \<open>input\<close> variable of the createTodo mutation (createDeployedTodo and
  createLocalTodo build the same object):
  \<^verbatim>\<open>input: { content: todo.content, completed: todo.completed || false }\<close>, and
  \<^verbatim>\<open>if (todo.id) { variables.input.id = todo.id; }\<close>. The empty string is falsy in
  JavaScript, so an empty id is not sent.
\<close>

record create_input =
  ci_id :: "string option"
  ci_content :: string
  ci_completed :: bool

definition createTodoInput :: "todo \<Rightarrow> create_input" where
  "createTodoInput t =
     \<lparr>ci_id = (if id_todo t \<noteq> [] then Some (id_todo t) else None),
      ci_content = content t,
      ci_completed = (completed t \<or> False)\<rparr>"

text \<open>
  The \<open>input\<close> variable of the updateTodo mutation (updateDeployedTodo and
  updateLocalTodo): \<^verbatim>\<open>input: { id: todo.id, content: todo.content, completed: todo.completed }\<close>.
\<close>

record update_input =
  ui_id :: string
  ui_content :: string
  ui_completed :: bool

definition updateTodoInput :: "todo \<Rightarrow> update_input" where
  "updateTodoInput t =
     \<lparr>ui_id = id_todo t, ui_content = content t, ui_completed = completed t\<rparr>"

section \<open>The three synchronisation loops as sequences of accessor calls\<close>

text \<open>
  \<open>new Map()\<close> filled by \<open>forEach(todo => map.set(todo.id, todo))\<close>: a JavaScript Map
  keeps its keys in the order of their first insertion, and a later \<open>set\<close> of the same
  key replaces the value in place. That is \<^const>\<open>AList.update\<close> on an association list.
\<close>

definition todosMap :: "todo list \<Rightarrow> (string \<times> todo) list" where
  "todosMap todos = foldl (\<lambda>m t. AList.update (id_todo t) t m) [] todos"

definition has :: "(string \<times> todo) list \<Rightarrow> string \<Rightarrow> bool" where
  "has m i = (map_of m i \<noteq> None)"

definition keys :: "(string \<times> todo) list \<Rightarrow> string list" where
  "keys m = map fst m"

text \<open>
  The four write functions are awaited one after the other and their results are
  dropped, and both lists are read before the first of them is called. So which calls a
  loop makes, with which record and in which order, is a function of the two lists alone.
\<close>

datatype call =
    UpdateDeployedTodo todo
  | UpdateLocalTodo todo
  | CreateDeployedTodo todo
  | CreateLocalTodo todo

fun call_todo :: "call \<Rightarrow> todo" where
  "call_todo (UpdateDeployedTodo t) = t"
| "call_todo (UpdateLocalTodo t) = t"
| "call_todo (CreateDeployedTodo t) = t"
| "call_todo (CreateLocalTodo t) = t"

definition call_id :: "call \<Rightarrow> string" where
  "call_id c = id_todo (call_todo c)"

text \<open>syncTwoWay: the loop over \<open>commonTodoIds\<close>, then \<open>localOnlyTodoIds\<close>, then
  \<open>deployedOnlyTodoIds\<close>. A key of a map always has a value, so the \<open>None\<close> branches
  below are never taken.\<close>

definition commonStep ::
  "date_parser \<Rightarrow> (string \<times> todo) list \<Rightarrow> (string \<times> todo) list \<Rightarrow> string \<Rightarrow> call list" where
  "commonStep getTime localTodosMap deployedTodosMap i =
     (case (map_of localTodosMap i, map_of deployedTodosMap i) of
        (Some localTodo, Some deployedTodo) \<Rightarrow>
          (let localUpdatedAt = getTime (updatedAt localTodo);
               deployedUpdatedAt = getTime (updatedAt deployedTodo)
           in if js_gt localUpdatedAt deployedUpdatedAt then [UpdateDeployedTodo localTodo]
              else if js_gt deployedUpdatedAt localUpdatedAt then [UpdateLocalTodo deployedTodo]
              else [])
      | _ \<Rightarrow> [])"

definition createStep :: "(todo \<Rightarrow> call) \<Rightarrow> (string \<times> todo) list \<Rightarrow> string \<Rightarrow> call list" where
  "createStep create m i = (case map_of m i of Some t \<Rightarrow> [create t] | None \<Rightarrow> [])"

definition syncTwoWay_calls :: "date_parser \<Rightarrow> todo list \<Rightarrow> todo list \<Rightarrow> call list" where
  "syncTwoWay_calls getTime localTodos deployedTodos =
     (let localTodosMap = todosMap localTodos;
          deployedTodosMap = todosMap deployedTodos;
          commonTodoIds = filter (\<lambda>i. has deployedTodosMap i) (keys localTodosMap);
          localOnlyTodoIds = filter (\<lambda>i. \<not> has deployedTodosMap i) (keys localTodosMap);
          deployedOnlyTodoIds = filter (\<lambda>i. \<not> has localTodosMap i) (keys deployedTodosMap)
      in concat (map (commonStep getTime localTodosMap deployedTodosMap) commonTodoIds)
         @ concat (map (createStep CreateDeployedTodo localTodosMap) localOnlyTodoIds)
         @ concat (map (createStep CreateLocalTodo deployedTodosMap) deployedOnlyTodoIds))"

text \<open>syncLocalToDeployed walks the list \<open>localTodos\<close> itself and looks each id up in
  the map of the deployed side; syncDeployedToLocal is its mirror image.\<close>

definition localToDeployedStep ::
  "date_parser \<Rightarrow> (string \<times> todo) list \<Rightarrow> todo \<Rightarrow> call list" where
  "localToDeployedStep getTime deployedTodosMap localTodo =
     (case map_of deployedTodosMap (id_todo localTodo) of
        Some deployedTodo \<Rightarrow>
          (let localUpdatedAt = getTime (updatedAt localTodo);
               deployedUpdatedAt = getTime (updatedAt deployedTodo)
           in if js_gt localUpdatedAt deployedUpdatedAt then [UpdateDeployedTodo localTodo]
              else [])
      | None \<Rightarrow> [CreateDeployedTodo localTodo])"

definition syncLocalToDeployed_calls :: "date_parser \<Rightarrow> todo list \<Rightarrow> todo list \<Rightarrow> call list" where
  "syncLocalToDeployed_calls getTime localTodos deployedTodos =
     (let deployedTodosMap = todosMap deployedTodos
      in concat (map (localToDeployedStep getTime deployedTodosMap) localTodos))"

definition deployedToLocalStep ::
  "date_parser \<Rightarrow> (string \<times> todo) list \<Rightarrow> todo \<Rightarrow> call list" where
  "deployedToLocalStep getTime localTodosMap deployedTodo =
     (case map_of localTodosMap (id_todo deployedTodo) of
        Some localTodo \<Rightarrow>
          (let localUpdatedAt = getTime (updatedAt localTodo);
               deployedUpdatedAt = getTime (updatedAt deployedTodo)
           in if js_gt deployedUpdatedAt localUpdatedAt then [UpdateLocalTodo deployedTodo]
              else [])
      | None \<Rightarrow> [CreateLocalTodo deployedTodo])"

definition syncDeployedToLocal_calls :: "date_parser \<Rightarrow> todo list \<Rightarrow> todo list \<Rightarrow> call list" where
  "syncDeployedToLocal_calls getTime localTodos deployedTodos =
     (let localTodosMap = todosMap localTodos
      in concat (map (deployedToLocalStep getTime localTodosMap) deployedTodos))"

section \<open>Shell commands, retries and the accessor functions\<close>

text \<open>
  Every access to a replica is a shell command run by \<open>execSync\<close>: a \<open>curl\<close> POST of a
  GraphQL request to the endpoint of the local sandbox or of the deployed API, the
  \<open>ps aux | grep "ampx sandbox"\<close> probe, \<open>npx ampx sandbox &\<close>, and \<open>sleep\<close> (its
  argument is kept in milliseconds, so \<open>sleep 1\<close> is \<open>Sleep 1000\<close>).
  The accessors of both sides read the endpoint from the same file
  \<open>amplify_outputs.json\<close>; a request is attributed to the side whose accessor
  (\<open>...LocalTodo\<close> or \<open>...DeployedTodo\<close>) sent it.
\<close>

datatype replica = Local | Deployed

datatype request = ListTodos | CreateTodo create_input | UpdateTodo update_input

datatype command = Curl replica request | PsSandbox | StartSandbox | Sleep nat

text \<open>
  What a command printed, as far as the scripts look at it after \<open>JSON.parse\<close>: which
  of \<open>data.listTodos.items\<close>, \<open>data.createTodo\<close>, \<open>data.updateTodo\<close> the body holds,
  a body without any of them, or text that is no JSON.
\<close>

datatype response =
    ListTodosData "todo list"
  | CreateTodoData todo
  | UpdateTodoData todo
  | NoData
  | Unparsable

text \<open>
  The outside world is a parameter: \<open>sh command w\<close> is what running the command does in
  world \<open>w\<close>, \<open>None\<close> when \<open>execSync\<close> throws (the command exits with a non-zero
  status). The state of a run is the list of commands run so far and the world.
  A function of the script returns normally (\<open>Ret\<close>), ends the process by
  \<open>process.exit(1)\<close> (\<open>Exit\<close>), or throws (\<open>Thrown\<close>).
\<close>

type_synonym 'w shell = "command \<Rightarrow> 'w \<Rightarrow> response option \<times> 'w"

type_synonym 'w state = "command list \<times> 'w"

datatype 'a res = Ret 'a | Exit | Thrown

definition execSync :: "'w shell \<Rightarrow> command \<Rightarrow> 'w state \<Rightarrow> response option \<times> 'w state" where
  "execSync sh c s = (case sh c (snd s) of (r, w') \<Rightarrow> (r, (fst s @ [c], w')))"

text \<open>
  The options of \<open>execute\<close> that steer its control flow (\<open>silent\<close> and \<open>env\<close> only
  change how the child process is started). \<open>options.maxRetries || 3\<close> and
  \<open>options.retryDelay || 1000\<close> take the default also for 0, which is falsy.
\<close>

record options =
  maxRetries :: "nat option"
  retryDelay :: "nat option"
  ignoreError :: bool
  noRetry :: bool
  exitOnError :: "bool option"

definition maxRetries_of :: "options \<Rightarrow> nat" where
  "maxRetries_of opts = (case maxRetries opts of Some n \<Rightarrow> (if n = 0 then 3 else n) | None \<Rightarrow> 3)"

definition retryDelay_of :: "options \<Rightarrow> nat" where
  "retryDelay_of opts = (case retryDelay opts of Some n \<Rightarrow> (if n = 0 then 1000 else n) | None \<Rightarrow> 1000)"

text \<open>
  \<open>executeWithRetry\<close>, the closure inside \<open>execute\<close>, with its counter \<open>retries\<close> as an
  argument. The \<open>sleep\<close> between two tries is itself an \<open>execSync\<close> inside the catch
  block: when it throws, the exception leaves \<open>execute\<close>.
\<close>

function executeWithRetry ::
  "'w shell \<Rightarrow> command \<Rightarrow> options \<Rightarrow> nat \<Rightarrow> 'w state \<Rightarrow> response option res \<times> 'w state" where
  "executeWithRetry sh command opts retries s =
     (case execSync sh command s of
        (Some out, s1) \<Rightarrow> (Ret (Some out), s1)
      | (None, s1) \<Rightarrow>
          (if retries < maxRetries_of opts \<and> \<not> noRetry opts then
             (case execSync sh (Sleep (retryDelay_of opts)) s1 of
                (Some _, s2) \<Rightarrow> executeWithRetry sh command opts (retries + 1) s2
              | (None, s2) \<Rightarrow> (Thrown, s2))
           else if \<not> ignoreError opts then
             (if exitOnError opts \<noteq> Some False then (Exit, s1) else (Ret None, s1))
           else (Ret None, s1)))"
  by pat_completeness auto
termination
  by (relation "measure (\<lambda>(sh, command, opts, retries, s). maxRetries_of opts - retries)") auto

definition execute :: "'w shell \<Rightarrow> command \<Rightarrow> options \<Rightarrow> 'w state \<Rightarrow> response option res \<times> 'w state" where
  "execute sh command opts s = executeWithRetry sh command opts 0 s"

text \<open>\<open>{ silent: true }\<close> and \<open>{ silent: true, ignoreError: true }\<close>.\<close>

definition opts_silent :: options where
  "opts_silent = \<lparr>maxRetries = None, retryDelay = None, ignoreError = False, noRetry = False,
                  exitOnError = None\<rparr>"

definition opts_ignoreError :: options where
  "opts_ignoreError = \<lparr>maxRetries = None, retryDelay = None, ignoreError = True, noRetry = False,
                       exitOnError = None\<rparr>"

text \<open>
  \<open>executeGraphQL\<close> (the deployed side) runs curl with \<open>{ silent: true }\<close> inside a
  try block whose handler returns null: \<open>JSON.parse\<close> of text that is no JSON throws,
  \<open>result.toString()\<close> of null throws. Reading \<open>amplify_outputs.json\<close> and writing the
  temporary query file are taken to succeed.
\<close>

fun graphqlResult :: "response option res \<Rightarrow> response option res" where
  "graphqlResult (Ret (Some Unparsable)) = Ret None"
| "graphqlResult (Ret (Some r)) = Ret (Some r)"
| "graphqlResult (Ret None) = Ret None"
| "graphqlResult Thrown = Ret None"
| "graphqlResult Exit = Exit"

definition executeGraphQL :: "'w shell \<Rightarrow> request \<Rightarrow> 'w state \<Rightarrow> response option res \<times> 'w state" where
  "executeGraphQL sh query s =
     (case execute sh (Curl Deployed query) opts_silent s of (r, s1) \<Rightarrow> (graphqlResult r, s1))"

text \<open>What the list, create and update functions make of the parsed body; every
  exception is caught and turned into the empty list, or null.\<close>

fun listResult :: "response option res \<Rightarrow> todo list res" where
  "listResult (Ret (Some (ListTodosData items))) = Ret items"
| "listResult (Ret _) = Ret []"
| "listResult Thrown = Ret []"
| "listResult Exit = Exit"

fun createResult :: "response option res \<Rightarrow> todo option res" where
  "createResult (Ret (Some (CreateTodoData t))) = Ret (Some t)"
| "createResult (Ret _) = Ret None"
| "createResult Thrown = Ret None"
| "createResult Exit = Exit"

fun updateResult :: "response option res \<Rightarrow> todo option res" where
  "updateResult (Ret (Some (UpdateTodoData t))) = Ret (Some t)"
| "updateResult (Ret _) = Ret None"
| "updateResult Thrown = Ret None"
| "updateResult Exit = Exit"

definition listDeployedTodos :: "'w shell \<Rightarrow> 'w state \<Rightarrow> todo list res \<times> 'w state" where
  "listDeployedTodos sh s =
     (case executeGraphQL sh ListTodos s of (r, s1) \<Rightarrow> (listResult r, s1))"

definition createDeployedTodo :: "'w shell \<Rightarrow> todo \<Rightarrow> 'w state \<Rightarrow> todo option res \<times> 'w state" where
  "createDeployedTodo sh t s =
     (case executeGraphQL sh (CreateTodo (createTodoInput t)) s of (r, s1) \<Rightarrow> (createResult r, s1))"

definition updateDeployedTodo :: "'w shell \<Rightarrow> todo \<Rightarrow> 'w state \<Rightarrow> todo option res \<times> 'w state" where
  "updateDeployedTodo sh t s =
     (case executeGraphQL sh (UpdateTodo (updateTodoInput t)) s of (r, s1) \<Rightarrow> (updateResult r, s1))"

text \<open>
  \<open>ensureSandboxRunning\<close>: the probe and \<open>npx ampx sandbox &\<close> run with
  \<open>ignoreError: true\<close>, the wait \<open>sleep 5\<close> with \<open>{ silent: true }\<close> only. An exception
  is caught and gives false.
\<close>

definition ensureSandboxRunning :: "'w shell \<Rightarrow> 'w state \<Rightarrow> bool res \<times> 'w state" where
  "ensureSandboxRunning sh s =
     (case execute sh PsSandbox opts_ignoreError s of
        (Ret (Some _), s1) \<Rightarrow> (Ret True, s1)
      | (Ret None, s1) \<Rightarrow>
          (case execute sh StartSandbox opts_ignoreError s1 of
             (Ret _, s2) \<Rightarrow>
               (case execute sh (Sleep 5000) opts_silent s2 of
                  (Ret _, s3) \<Rightarrow>
                    (case execute sh PsSandbox opts_ignoreError s3 of
                       (Ret (Some _), s4) \<Rightarrow> (Ret True, s4)
                     | (Ret None, s4) \<Rightarrow> (Ret False, s4)
                     | (Thrown, s4) \<Rightarrow> (Ret False, s4)
                     | (Exit, s4) \<Rightarrow> (Exit, s4))
                | (Thrown, s3) \<Rightarrow> (Ret False, s3)
                | (Exit, s3) \<Rightarrow> (Exit, s3))
           | (Thrown, s2) \<Rightarrow> (Ret False, s2)
           | (Exit, s2) \<Rightarrow> (Exit, s2))
      | (Thrown, s1) \<Rightarrow> (Ret False, s1)
      | (Exit, s1) \<Rightarrow> (Exit, s1))"

text \<open>
  The accessors of the local side first make sure the sandbox runs (\<open>Cannot proceed
  without a running sandbox\<close>, then \<open>return []\<close> or \<open>return null\<close>), then run curl with
  \<open>{ silent: true, ignoreError: true }\<close>; \<open>if (!result)\<close> gives the empty list or null.
\<close>

definition localRequest ::
  "'w shell \<Rightarrow> request \<Rightarrow> 'w state \<Rightarrow> response option res \<times> 'w state" where
  "localRequest sh query s =
     (case ensureSandboxRunning sh s of
        (Ret True, s1) \<Rightarrow> execute sh (Curl Local query) opts_ignoreError s1
      | (Ret False, s1) \<Rightarrow> (Ret None, s1)
      | (Thrown, s1) \<Rightarrow> (Ret None, s1)
      | (Exit, s1) \<Rightarrow> (Exit, s1))"

definition listLocalTodos :: "'w shell \<Rightarrow> 'w state \<Rightarrow> todo list res \<times> 'w state" where
  "listLocalTodos sh s =
     (case localRequest sh ListTodos s of (r, s1) \<Rightarrow> (listResult r, s1))"

definition createLocalTodo :: "'w shell \<Rightarrow> todo \<Rightarrow> 'w state \<Rightarrow> todo option res \<times> 'w state" where
  "createLocalTodo sh t s =
     (case localRequest sh (CreateTodo (createTodoInput t)) s of (r, s1) \<Rightarrow> (createResult r, s1))"

definition updateLocalTodo :: "'w shell \<Rightarrow> todo \<Rightarrow> 'w state \<Rightarrow> todo option res \<times> 'w state" where
  "updateLocalTodo sh t s =
     (case localRequest sh (UpdateTodo (updateTodoInput t)) s of (r, s1) \<Rightarrow> (updateResult r, s1))"

section \<open>The runs\<close>

fun perform :: "'w shell \<Rightarrow> call \<Rightarrow> 'w state \<Rightarrow> todo option res \<times> 'w state" where
  "perform sh (UpdateDeployedTodo t) s = updateDeployedTodo sh t s"
| "perform sh (UpdateLocalTodo t) s = updateLocalTodo sh t s"
| "perform sh (CreateDeployedTodo t) s = createDeployedTodo sh t s"
| "perform sh (CreateLocalTodo t) s = createLocalTodo sh t s"

text \<open>The awaited calls of a loop, one after the other; \<open>process.exit\<close> ends the run
  on the spot, anything else goes on to the next call.\<close>

fun run_calls :: "'w shell \<Rightarrow> call list \<Rightarrow> 'w state \<Rightarrow> unit res \<times> 'w state" where
  "run_calls sh [] s = (Ret (), s)"
| "run_calls sh (c # cs) s =
     (case perform sh c s of
        (Ret _, s1) \<Rightarrow> run_calls sh cs s1
      | (Thrown, s1) \<Rightarrow> (Thrown, s1)
      | (Exit, s1) \<Rightarrow> (Exit, s1))"

text \<open>A sync function: both lists are read, local first, then the loops run. The
  try block around the whole body catches what is thrown and logs it.\<close>

fun caught :: "unit res \<times> 'w state \<Rightarrow> unit res \<times> 'w state" where
  "caught (Thrown, s) = (Ret (), s)"
| "caught (r, s) = (r, s)"

definition sync_with ::
  "(todo list \<Rightarrow> todo list \<Rightarrow> call list) \<Rightarrow> 'w shell \<Rightarrow> 'w state \<Rightarrow> unit res \<times> 'w state" where
  "sync_with calls sh s =
     (case listLocalTodos sh s of
        (Ret localTodos, s1) \<Rightarrow>
          (case listDeployedTodos sh s1 of
             (Ret deployedTodos, s2) \<Rightarrow> caught (run_calls sh (calls localTodos deployedTodos) s2)
           | (Thrown, s2) \<Rightarrow> (Ret (), s2)
           | (Exit, s2) \<Rightarrow> (Exit, s2))
      | (Thrown, s1) \<Rightarrow> (Ret (), s1)
      | (Exit, s1) \<Rightarrow> (Exit, s1))"

definition syncLocalToDeployed :: "'w shell \<Rightarrow> date_parser \<Rightarrow> 'w state \<Rightarrow> unit res \<times> 'w state" where
  "syncLocalToDeployed sh getTime = sync_with (syncLocalToDeployed_calls getTime) sh"

definition syncDeployedToLocal :: "'w shell \<Rightarrow> date_parser \<Rightarrow> 'w state \<Rightarrow> unit res \<times> 'w state" where
  "syncDeployedToLocal sh getTime = sync_with (syncDeployedToLocal_calls getTime) sh"

definition syncTwoWay :: "'w shell \<Rightarrow> date_parser \<Rightarrow> 'w state \<Rightarrow> unit res \<times> 'w state" where
  "syncTwoWay sh getTime = sync_with (syncTwoWay_calls getTime) sh"

text \<open>\<open>main\<close>: the direction is \<open>process.argv[2]\<close> when there is one, else the answer to
  the prompt.\<close>

definition main ::
  "'w shell \<Rightarrow> date_parser \<Rightarrow> string option \<Rightarrow> string \<Rightarrow> 'w state \<Rightarrow> unit res \<times> 'w state" where
  "main sh getTime syncDirection answer s =
     (if syncDirection \<noteq> None \<and> syncDirection \<noteq> Some [] then
        (if syncDirection = Some ''local-to-deployed'' then syncLocalToDeployed sh getTime s
         else if syncDirection = Some ''deployed-to-local'' then syncDeployedToLocal sh getTime s
         else if syncDirection = Some ''two-way'' then syncTwoWay sh getTime s
         else (Ret (), s))
      else
        (if answer = ''1'' then syncLocalToDeployed sh getTime s
         else if answer = ''2'' then syncDeployedToLocal sh getTime s
         else if answer = ''3'' then syncTwoWay sh getTime s
         else (Ret (), s)))"

section \<open>The export, merge and import of scripts/sync-data.js\<close>

text \<open>
  Direction 3 of \<open>main\<close> in sync-data.js exports both sides, merges them in a Map and
  imports the merged items into both sides. \<open>mergedData\<close> starts with all cloud items;
  a local item replaces the entry of its id when its timestamp is strictly greater, and
  is added when its id is new.
\<close>

definition mergeStep :: "date_parser \<Rightarrow> (string \<times> todo) list \<Rightarrow> todo \<Rightarrow> (string \<times> todo) list" where
  "mergeStep getTime mergedData item =
     (case map_of mergedData (id_todo item) of
        Some cloudItem \<Rightarrow>
          (let cloudUpdatedAt = getTime (updatedAt cloudItem);
               localUpdatedAt = getTime (updatedAt item)
           in if js_gt localUpdatedAt cloudUpdatedAt
              then AList.update (id_todo item) item mergedData
              else mergedData)
      | None \<Rightarrow> AList.update (id_todo item) item mergedData)"

definition mergedItems :: "date_parser \<Rightarrow> todo list \<Rightarrow> todo list \<Rightarrow> todo list" where
  "mergedItems getTime localData cloudData =
     map snd (foldl (mergeStep getTime) (todosMap cloudData) localData)"



















section \<open>A backend that does what it is asked\<close>

text \<open>
  Modelled from the spec: the service behind the two GraphQL endpoints is not part of
  the repository. Section 6 of the specification asks of a replica accessor that
  \<open>list\<close> returns the records, \<open>create\<close> accepts a pre-assigned id, and \<open>update\<close> fails when
  the id does not exist; section 3 says that \<open>createdAt\<close> is set once at creation and
  \<open>updatedAt\<close> on every mutation. The mutations of the scripts send no timestamp, so
  the backend stamps a written record with the reading of its own clock; a record
  created without an id gets one from the backend. Each replica is a list of records;
  every command succeeds and the sandbox runs.
\<close>

record backend =
  localStore :: "todo list"
  deployedStore :: "todo list"
  clock :: "nat \<Rightarrow> string"
  newId :: "nat \<Rightarrow> string"
  ticks :: nat

definition store_of :: "replica \<Rightarrow> backend \<Rightarrow> todo list" where
  "store_of r b = (case r of Local \<Rightarrow> localStore b | Deployed \<Rightarrow> deployedStore b)"

definition set_store :: "replica \<Rightarrow> todo list \<Rightarrow> backend \<Rightarrow> backend" where
  "set_store r st b = (case r of Local \<Rightarrow> b\<lparr>localStore := st\<rparr> | Deployed \<Rightarrow> b\<lparr>deployedStore := st\<rparr>)"

definition find_todo :: "string \<Rightarrow> todo list \<Rightarrow> todo option" where
  "find_todo i st = find (\<lambda>t. id_todo t = i) st"

definition store_create :: "string \<Rightarrow> string \<Rightarrow> create_input \<Rightarrow> todo list \<Rightarrow> todo option \<times> todo list" where
  "store_create fresh now inp st =
     (let i = (case ci_id inp of Some i \<Rightarrow> i | None \<Rightarrow> fresh)
      in case find_todo i st of
           Some _ \<Rightarrow> (None, st)
         | None \<Rightarrow>
             (let t = \<lparr>id_todo = i, content = ci_content inp, completed = ci_completed inp,
                      createdAt = now, updatedAt = now\<rparr>
              in (Some t, st @ [t])))"

definition store_update :: "string \<Rightarrow> update_input \<Rightarrow> todo list \<Rightarrow> todo option \<times> todo list" where
  "store_update now inp st =
     (case find_todo (ui_id inp) st of
        None \<Rightarrow> (None, st)
      | Some old \<Rightarrow>
          (let t = old\<lparr>content := ui_content inp, completed := ui_completed inp, updatedAt := now\<rparr>
           in (Some t, map (\<lambda>r. if id_todo r = ui_id inp then t else r) st)))"

definition backend_request :: "replica \<Rightarrow> request \<Rightarrow> backend \<Rightarrow> response option \<times> backend" where
  "backend_request r q b =
     (case q of
        ListTodos \<Rightarrow> (Some (ListTodosData (store_of r b)), b)
      | CreateTodo inp \<Rightarrow>
          (case store_create (newId b (ticks b)) (clock b (ticks b)) inp (store_of r b) of
             (Some t, st) \<Rightarrow> (Some (CreateTodoData t), set_store r st (b\<lparr>ticks := ticks b + 1\<rparr>))
           | (None, st) \<Rightarrow> (Some NoData, b))
      | UpdateTodo inp \<Rightarrow>
          (case store_update (clock b (ticks b)) inp (store_of r b) of
             (Some t, st) \<Rightarrow> (Some (UpdateTodoData t), set_store r st (b\<lparr>ticks := ticks b + 1\<rparr>))
           | (None, st) \<Rightarrow> (Some NoData, b)))"

definition backend_sh :: "backend shell" where
  "backend_sh c b =
     (case c of
        Curl r q \<Rightarrow> backend_request r q b
      | PsSandbox \<Rightarrow> (Some NoData, b)
      | StartSandbox \<Rightarrow> (Some NoData, b)
      | Sleep n \<Rightarrow> (Some NoData, b))"

section \<open>Sample data\<close>

text \<open>What \<open>new Date(s).getTime()\<close> gives on three ISO-8601 strings; any other string of
  the samples below is no date.\<close>

definition sample_getTime :: date_parser where
  "sample_getTime =
     map_of [(''2024-01-01T00:00:00.000Z'', 1704067200000),
             (''2024-01-02T00:00:00.000Z'', 1704153600000),
             (''2024-06-01T00:00:00.000Z'', 1717200000000)]"

definition todo_new :: todo where
  "todo_new = \<lparr>id_todo = ''1'', content = ''buy milk'', completed = False,
               createdAt = ''2024-01-01T00:00:00.000Z'', updatedAt = ''2024-01-02T00:00:00.000Z''\<rparr>"

definition todo_old :: todo where
  "todo_old = \<lparr>id_todo = ''1'', content = ''buy bread'', completed = True,
               createdAt = ''2024-01-01T00:00:00.000Z'', updatedAt = ''2024-01-01T00:00:00.000Z''\<rparr>"

definition todo_tie :: todo where
  "todo_tie = \<lparr>id_todo = ''1'', content = ''buy bread'', completed = True,
               createdAt = ''2024-01-01T00:00:00.000Z'', updatedAt = ''2024-01-02T00:00:00.000Z''\<rparr>"

definition todo_bad :: todo where
  "todo_bad = \<lparr>id_todo = ''2'', content = ''call home'', completed = False,
               createdAt = ''2024-01-01T00:00:00.000Z'', updatedAt = ''yesterday''\<rparr>"

definition todo_bad_old :: todo where
  "todo_bad_old = \<lparr>id_todo = ''2'', content = ''call work'', completed = False,
               createdAt = ''2024-01-01T00:00:00.000Z'', updatedAt = ''2024-01-01T00:00:00.000Z''\<rparr>"

text \<open>A backend whose clock shows the first of June 2024, holding the given records.\<close>

definition sample_backend :: "todo list \<Rightarrow> todo list \<Rightarrow> backend" where
  "sample_backend ls ds =
     \<lparr>localStore = ls, deployedStore = ds, clock = (\<lambda>n. ''2024-06-01T00:00:00.000Z''),
      newId = (\<lambda>n. ''generated''), ticks = 0\<rparr>"


text \<open>A world in which the list request to the local sandbox fails, the deployed side
  lists one record, and every other command succeeds.\<close>

definition sh_local_list_fails :: "unit shell" where
  "sh_local_list_fails c w =
     (case c of
        Curl Local ListTodos \<Rightarrow> (None, w)
      | Curl Deployed ListTodos \<Rightarrow> (Some (ListTodosData [todo_old]), w)
      | _ \<Rightarrow> (Some NoData, w))"

text \<open>Records 2 and 3 are newer on the local side; in this world the update of record 2
  on the deployed side fails every time, every other command succeeds.\<close>

definition todo2_local :: todo where
  "todo2_local = \<lparr>id_todo = ''2'', content = ''two, edited'', completed = False,
               createdAt = ''2024-01-01T00:00:00.000Z'', updatedAt = ''2024-01-02T00:00:00.000Z''\<rparr>"

definition todo2_deployed :: todo where
  "todo2_deployed = \<lparr>id_todo = ''2'', content = ''two'', completed = False,
               createdAt = ''2024-01-01T00:00:00.000Z'', updatedAt = ''2024-01-01T00:00:00.000Z''\<rparr>"

definition todo3_local :: todo where
  "todo3_local = \<lparr>id_todo = ''3'', content = ''three, edited'', completed = False,
               createdAt = ''2024-01-01T00:00:00.000Z'', updatedAt = ''2024-01-02T00:00:00.000Z''\<rparr>"

definition todo3_deployed :: todo where
  "todo3_deployed = \<lparr>id_todo = ''3'', content = ''three'', completed = False,
               createdAt = ''2024-01-01T00:00:00.000Z'', updatedAt = ''2024-01-01T00:00:00.000Z''\<rparr>"

definition sh_update2_fails :: "unit shell" where
  "sh_update2_fails c w =
     (case c of
        Curl Local ListTodos \<Rightarrow> (Some (ListTodosData [todo2_local, todo3_local]), w)
      | Curl Deployed ListTodos \<Rightarrow> (Some (ListTodosData [todo2_deployed, todo3_deployed]), w)
      | Curl Deployed (UpdateTodo inp) \<Rightarrow>
          (if ui_id inp = ''2'' then (None, w) else (Some NoData, w))
      | _ \<Rightarrow> (Some NoData, w))"

text \<open>A world in which the deployed API answers the list query without data (an error
  body), the sandbox lists one record, and every other command succeeds.\<close>

definition sh_deployed_no_data :: "unit shell" where
  "sh_deployed_no_data c w =
     (case c of
        Curl Local ListTodos \<Rightarrow> (Some (ListTodosData [todo_new]), w)
      | _ \<Rightarrow> (Some NoData, w))"

text \<open>The mirror image of \<open>sh_update2_fails\<close>: records 2 and 3 are newer on the deployed
  side, and the update of record 2 on the local side fails every time.\<close>

definition sh_local_update2_fails :: "unit shell" where
  "sh_local_update2_fails c w =
     (case c of
        Curl Local ListTodos \<Rightarrow> (Some (ListTodosData [todo2_deployed, todo3_deployed]), w)
      | Curl Deployed ListTodos \<Rightarrow> (Some (ListTodosData [todo2_local, todo3_local]), w)
      | Curl Local (UpdateTodo inp) \<Rightarrow>
          (if ui_id inp = ''2'' then (None, w) else (Some NoData, w))
      | _ \<Rightarrow> (Some NoData, w))"






text \<open>
  Worlds in which the list request to one side gets a given answer (\<open>None\<close>: the curl
  command fails every time), the other side lists one record and every other command
  succeeds. In \<open>sh_sandbox_down\<close> the probe for the sandbox fails every time, so the
  sandbox counts as not running; \<open>failed_probe\<close> is what one such probe runs, retries
  included. In \<open>sh_wait_fails\<close> the \<open>sleep 5\<close> that waits for the sandbox fails as well.
\<close>

definition sh_local_answers :: "response option \<Rightarrow> unit shell" where
  "sh_local_answers x c w =
     (case c of
        Curl Local ListTodos \<Rightarrow> (x, w)
      | Curl Deployed ListTodos \<Rightarrow> (Some (ListTodosData [todo_old]), w)
      | _ \<Rightarrow> (Some NoData, w))"

definition sh_deployed_answers :: "response option \<Rightarrow> unit shell" where
  "sh_deployed_answers x c w =
     (case c of
        Curl Local ListTodos \<Rightarrow> (Some (ListTodosData [todo_new]), w)
      | Curl Deployed ListTodos \<Rightarrow> (x, w)
      | _ \<Rightarrow> (Some NoData, w))"

definition sh_sandbox_down :: "unit shell" where
  "sh_sandbox_down c w =
     (case c of
        PsSandbox \<Rightarrow> (None, w)
      | Curl Deployed ListTodos \<Rightarrow> (Some (ListTodosData [todo_old]), w)
      | _ \<Rightarrow> (Some NoData, w))"

definition sh_wait_fails :: "unit shell" where
  "sh_wait_fails c w =
     (case c of
        PsSandbox \<Rightarrow> (None, w)
      | Sleep n \<Rightarrow> (if n = 5000 then None else Some NoData, w)
      | _ \<Rightarrow> (Some NoData, w))"

definition failed_probe :: "command list" where
  "failed_probe = [PsSandbox, Sleep 1000, PsSandbox, Sleep 1000, PsSandbox, Sleep 1000, PsSandbox]"

section \<open>Auxiliary notions for the proofs\<close>

text \<open>An association list whose keys are distinct and are the ids of their values.\<close>

definition keyed :: "(string \<times> todo) list \<Rightarrow> bool" where
  "keyed m \<longleftrightarrow> distinct (map fst m) \<and> (\<forall>p \<in> set m. id_todo (snd p) = fst p)"

text \<open>Which replica a call of a loop is made against, and which commands are writes
  to a replica.\<close>

fun call_target :: "call \<Rightarrow> replica" where
  "call_target (UpdateDeployedTodo t) = Deployed"
| "call_target (UpdateLocalTodo t) = Local"
| "call_target (CreateDeployedTodo t) = Deployed"
| "call_target (CreateLocalTodo t) = Local"

fun is_write_to :: "replica \<Rightarrow> command \<Rightarrow> bool" where
  "is_write_to r (Curl r' (CreateTodo inp)) = (r' = r)"
| "is_write_to r (Curl r' (UpdateTodo inp)) = (r' = r)"
| "is_write_to r c = False"

text \<open>
  \<open>extends sh A s s'\<close>: state \<open>s'\<close> comes from \<open>s\<close> by running some commands of the
  set \<open>A\<close>, one after the other, and nothing else.
\<close>

definition replay :: "'w shell \<Rightarrow> command list \<Rightarrow> 'w \<Rightarrow> 'w" where
  "replay sh cs w = foldl (\<lambda>w c. snd (sh c w)) w cs"

definition extends :: "'w shell \<Rightarrow> command set \<Rightarrow> 'w state \<Rightarrow> 'w state \<Rightarrow> bool" where
  "extends sh A s s' \<longleftrightarrow>
     (\<exists>cs. fst s' = fst s @ cs \<and> set cs \<subseteq> A \<and> snd s' = replay sh cs (snd s))"

text \<open>The commands that the accessors of each side may run for a request.\<close>

definition sandbox_commands :: "command set" where
  "sandbox_commands = {PsSandbox, StartSandbox, Sleep 5000, Sleep 1000}"

definition request_commands :: "replica \<Rightarrow> request \<Rightarrow> command set" where
  "request_commands r q =
     (case r of
        Deployed \<Rightarrow> {Curl Deployed q, Sleep 1000}
      | Local \<Rightarrow> insert (Curl Local q) sandbox_commands)"

fun call_request :: "call \<Rightarrow> request" where
  "call_request (UpdateDeployedTodo t) = UpdateTodo (updateTodoInput t)"
| "call_request (UpdateLocalTodo t) = UpdateTodo (updateTodoInput t)"
| "call_request (CreateDeployedTodo t) = CreateTodo (createTodoInput t)"
| "call_request (CreateLocalTodo t) = CreateTodo (createTodoInput t)"

text \<open>What a call does to the backend model when every command succeeds, and the relation
  between a record and the copy that a create or an update wrote from it.\<close>

definition backend_call :: "call \<Rightarrow> backend \<Rightarrow> backend" where
  "backend_call c b = snd (backend_request (call_target c) (call_request c) b)"

fun is_create :: "call \<Rightarrow> bool" where
  "is_create (CreateDeployedTodo t) = True"
| "is_create (CreateLocalTodo t) = True"
| "is_create c = False"

definition written_from :: "backend \<Rightarrow> todo \<Rightarrow> todo \<Rightarrow> bool" where
  "written_from b src dst \<longleftrightarrow>
     id_todo dst = id_todo src \<and> content dst = content src \<and> completed dst = completed src
     \<and> updatedAt dst \<in> range (clock b)"

text \<open>
  What a two-way run against the backend model leaves for the id \<open>i\<close>, from the state
  \<open>b\<close> before it to the state \<open>b'\<close> after it: the side with the strictly greater
  timestamp, or the only side that has the id, keeps its record and the other side
  holds a copy written from it; where neither timestamp is strictly greater both
  records stay as they are.
\<close>

definition outcome :: "date_parser \<Rightarrow> backend \<Rightarrow> backend \<Rightarrow> string \<Rightarrow> bool" where
  "outcome getTime b b' i =
     (case (find_todo i (localStore b), find_todo i (deployedStore b)) of
        (Some l0, Some d0) \<Rightarrow>
          if js_gt (getTime (updatedAt l0)) (getTime (updatedAt d0)) then
            find_todo i (localStore b') = Some l0
            \<and> (\<exists>d. find_todo i (deployedStore b') = Some d \<and> written_from b l0 d)
          else if js_gt (getTime (updatedAt d0)) (getTime (updatedAt l0)) then
            find_todo i (deployedStore b') = Some d0
            \<and> (\<exists>l. find_todo i (localStore b') = Some l \<and> written_from b d0 l)
          else find_todo i (localStore b') = Some l0 \<and> find_todo i (deployedStore b') = Some d0
      | (Some l0, None) \<Rightarrow>
          find_todo i (localStore b') = Some l0
          \<and> (\<exists>d. find_todo i (deployedStore b') = Some d \<and> written_from b l0 d)
      | (None, Some d0) \<Rightarrow>
          find_todo i (deployedStore b') = Some d0
          \<and> (\<exists>l. find_todo i (localStore b') = Some l \<and> written_from b d0 l)
      | (None, None) \<Rightarrow>
          find_todo i (localStore b') = None \<and> find_todo i (deployedStore b') = None)"

section \<open>Facts about the maps and the call sequences\<close>

lemma foldl_update_distinct:
  "distinct (map fst acc) \<Longrightarrow>
   distinct (map fst (foldl (\<lambda>m t. AList.update (id_todo t) t m) acc ts))"
  by (induction ts arbitrary: acc) (simp_all add: distinct_update)

lemma set_update_subset: "set (AList.update k v al) \<subseteq> insert (k, v) (set al)"
  by (induction al) auto

lemma foldl_update_ids:
  "\<forall>p \<in> set acc. id_todo (snd p) = fst p \<Longrightarrow>
   \<forall>p \<in> set (foldl (\<lambda>m t. AList.update (id_todo t) t m) acc ts). id_todo (snd p) = fst p"
proof (induction ts arbitrary: acc)
  case Nil then show ?case by simp
next
  case (Cons t ts)
  have "\<forall>p \<in> set (AList.update (id_todo t) t acc). id_todo (snd p) = fst p"
    using Cons.prems set_update_subset[of "id_todo t" t acc] by auto
  from Cons.IH[OF this] show ?case by simp
qed

lemma foldl_update_dom:
  "fst ` set (foldl (\<lambda>m t. AList.update (id_todo t) t m) acc ts) = fst ` set acc \<union> id_todo ` set ts"
  by (induction ts arbitrary: acc) (auto simp: dom_update)

lemma todosMap_distinct_keys: "distinct (keys (todosMap ts))"
  using foldl_update_distinct[of "[]" ts] by (simp add: todosMap_def keys_def)

lemma todosMap_id: "map_of (todosMap ts) i = Some t \<Longrightarrow> id_todo t = i"
  using foldl_update_ids[of "[]" ts] map_of_SomeD[of "todosMap ts" i t]
  by (fastforce simp: todosMap_def)

lemma todosMap_keys: "set (keys (todosMap ts)) = id_todo ` set ts"
  using foldl_update_dom[of "[]" ts] by (simp add: todosMap_def keys_def)

lemma has_todosMap: "has (todosMap ts) i \<longleftrightarrow> i \<in> id_todo ` set ts"
  using todosMap_keys[of ts] by (simp add: has_def keys_def map_of_eq_None_iff)

lemma has_keys: "has m i \<longleftrightarrow> i \<in> set (keys m)"
  by (simp add: has_def keys_def map_of_eq_None_iff)

lemma foldl_update_append:
  "distinct (map fst acc @ map id_todo ts) \<Longrightarrow>
   foldl (\<lambda>m t. AList.update (id_todo t) t m) acc ts = acc @ map (\<lambda>t. (id_todo t, t)) ts"
proof (induction ts arbitrary: acc)
  case Nil show ?case by simp
next
  case (Cons t ts)
  have "AList.update (id_todo t) t acc = acc @ [(id_todo t, t)]"
    using Cons.prems by (induction acc) auto
  then show ?case using Cons.IH[of "acc @ [(id_todo t, t)]"] Cons.prems by simp
qed

lemma todosMap_of_distinct:
  "distinct (map id_todo ts) \<Longrightarrow> todosMap ts = map (\<lambda>t. (id_todo t, t)) ts"
  using foldl_update_append[of "[]" ts] by (simp add: todosMap_def)

lemma map_of_keyed:
  "distinct (map id_todo ts) \<Longrightarrow> t \<in> set ts \<Longrightarrow> map_of (map (\<lambda>t. (id_todo t, t)) ts) (id_todo t) = Some t"
  by (induction ts) (auto simp: rev_image_eqI)

lemma todosMap_get:
  "distinct (map id_todo ts) \<Longrightarrow> t \<in> set ts \<Longrightarrow> map_of (todosMap ts) (id_todo t) = Some t"
  by (simp add: todosMap_of_distinct map_of_keyed)

lemma todosMap_get_None:
  "i \<notin> id_todo ` set ts \<Longrightarrow> map_of (todosMap ts) i = None"
  using has_todosMap[of ts i] by (simp add: has_def)

lemma filter_concat_keyed:
  "distinct xs \<Longrightarrow> (\<And>y c. y \<in> set xs \<Longrightarrow> c \<in> set (f y) \<Longrightarrow> key c = y) \<Longrightarrow>
   filter (\<lambda>c. key c = i) (concat (map f xs)) = (if i \<in> set xs then f i else [])"
proof (induction xs)
  case Nil then show ?case by simp
next
  case (Cons y ys)
  have all: "\<forall>c \<in> set (f y). key c = y" using Cons.prems(2) by simp
  have hd: "filter (\<lambda>c. key c = i) (f y) = (if y = i then f y else [])"
    using all by (auto simp: filter_empty_conv filter_id_conv)
  have tl: "filter (\<lambda>c. key c = i) (concat (map f ys)) = (if i \<in> set ys then f i else [])"
    using Cons by simp
  show ?case using hd tl Cons.prems(1) by auto
qed

lemma commonStep_ids:
  "c \<in> set (commonStep getTime (todosMap ls) (todosMap ds) i) \<Longrightarrow> call_id c = i"
  by (auto simp: commonStep_def call_id_def Let_def dest: todosMap_id[OF sym] split: option.splits if_splits)

lemma createStep_ids:
  "c \<in> set (createStep (CreateDeployedTodo) (todosMap ts) i) \<Longrightarrow> call_id c = i"
  "c \<in> set (createStep (CreateLocalTodo) (todosMap ts) i) \<Longrightarrow> call_id c = i"
  by (auto simp: createStep_def call_id_def dest: todosMap_id[OF sym] split: option.splits)

lemma filter_concat_keyed_filter:
  assumes "distinct xs" and "\<And>y c. c \<in> set (f y) \<Longrightarrow> key c = y"
  shows "filter (\<lambda>c. key c = i) (concat (map f (filter Q xs))) = (if i \<in> set xs \<and> Q i then f i else [])"
proof -
  have "distinct (filter Q xs)" using assms(1) by simp
  from filter_concat_keyed[OF this, of f key i] assms(2)
  have "filter (\<lambda>c. key c = i) (concat (map f (filter Q xs))) = (if i \<in> set (filter Q xs) then f i else [])"
    by blast
  then show ?thesis by simp
qed

lemma syncTwoWay_calls_for_id:
  "filter (\<lambda>c. call_id c = i) (syncTwoWay_calls getTime ls ds) =
     (case (map_of (todosMap ls) i, map_of (todosMap ds) i) of
        (Some l, Some d) \<Rightarrow> commonStep getTime (todosMap ls) (todosMap ds) i
      | (Some l, None) \<Rightarrow> [CreateDeployedTodo l]
      | (None, Some d) \<Rightarrow> [CreateLocalTodo d]
      | (None, None) \<Rightarrow> [])"
proof -
  define L where "L = todosMap ls"
  define D where "D = todosMap ds"
  have dL: "distinct (keys L)" and dD: "distinct (keys D)"
    by (simp_all add: L_def D_def todosMap_distinct_keys)
  have k1: "\<And>y c. c \<in> set (commonStep getTime L D y) \<Longrightarrow> call_id c = y"
    unfolding L_def D_def by (rule commonStep_ids)
  have k2: "\<And>y c. c \<in> set (createStep CreateDeployedTodo L y) \<Longrightarrow> call_id c = y"
    unfolding L_def by (rule createStep_ids(1))
  have k3: "\<And>y c. c \<in> set (createStep CreateLocalTodo D y) \<Longrightarrow> call_id c = y"
    unfolding D_def by (rule createStep_ids(2))
  note s1 = filter_concat_keyed_filter[OF dL k1, where Q="\<lambda>i. has D i" and i=i]
  note s2 = filter_concat_keyed_filter[OF dL k2, where Q="\<lambda>i. \<not> has D i" and i=i]
  note s3 = filter_concat_keyed_filter[OF dD k3, where Q="\<lambda>i. \<not> has L i" and i=i]
  have "filter (\<lambda>c. call_id c = i) (syncTwoWay_calls getTime ls ds) =
      (if i \<in> set (keys L) \<and> has D i then commonStep getTime L D i else [])
      @ (if i \<in> set (keys L) \<and> \<not> has D i then createStep CreateDeployedTodo L i else [])
      @ (if i \<in> set (keys D) \<and> \<not> has L i then createStep CreateLocalTodo D i else [])"
    unfolding syncTwoWay_calls_def Let_def filter_append L_def[symmetric] D_def[symmetric]
    by (simp only: s1 s2 s3)
  then show ?thesis
    unfolding L_def[symmetric] D_def[symmetric]
    by (cases "map_of L i"; cases "map_of D i")
       (simp_all add: has_def createStep_def commonStep_def has_keys[symmetric])
qed

lemma todosMap_mem: "map_of (todosMap ts) i = Some t \<Longrightarrow> t \<in> set ts"
proof -
  have "set (map snd (foldl (\<lambda>m t. AList.update (id_todo t) t m) acc ts)) \<subseteq> snd ` set acc \<union> set ts" for acc
  proof (induction ts arbitrary: acc)
    case Nil show ?case by simp
  next
    case (Cons t ts)
    have "snd ` set (AList.update (id_todo t) t acc) \<subseteq> insert t (snd ` set acc)"
      using set_update_subset[of "id_todo t" t acc] by force
    with Cons[of "AList.update (id_todo t) t acc"] show ?case by auto
  qed
  from this[of "[]"] have "snd ` set (todosMap ts) \<subseteq> set ts" by (simp add: todosMap_def)
  moreover assume "map_of (todosMap ts) i = Some t"
  then have "(i, t) \<in> set (todosMap ts)" by (rule map_of_SomeD)
  ultimately show ?thesis by force
qed


lemma js_gt_None: "\<not> js_gt None y" "\<not> js_gt x None"
  by (cases y; simp) (cases x; simp)

lemma find_todo_mem:
  "distinct (map id_todo ts) \<Longrightarrow> t \<in> set ts \<Longrightarrow> find_todo (id_todo t) ts = Some t"
  unfolding find_todo_def by (induction ts) (auto simp: rev_image_eqI)

lemma find_todo_None: "find_todo i ts = None \<longleftrightarrow> i \<notin> id_todo ` set ts"
  unfolding find_todo_def by (auto simp: find_None_iff)

lemma find_todo_Some: "find_todo i ts = Some t \<Longrightarrow> t \<in> set ts \<and> id_todo t = i"
  unfolding find_todo_def by (induction ts) (auto split: if_splits)

lemma todosMap_find:
  "distinct (map id_todo ts) \<Longrightarrow> map_of (todosMap ts) i = find_todo i ts"
proof (cases "find_todo i ts")
  case None
  then have "i \<notin> id_todo ` set ts" by (simp add: find_todo_None)
  then show "map_of (todosMap ts) i = find_todo i ts"
    using None by (simp add: todosMap_get_None)
next
  case (Some t)
  assume "distinct (map id_todo ts)"
  with Some find_todo_Some[OF Some] show "map_of (todosMap ts) i = find_todo i ts"
    using todosMap_get[of ts t] by simp
qed





lemma syncTwoWay_calls_common:
  assumes "distinct (map id_todo ls)" "distinct (map id_todo ds)"
    and "a \<in> set ls" "b \<in> set ds" "id_todo a = id_todo b"
  shows "filter (\<lambda>c. call_id c = id_todo a) (syncTwoWay_calls getTime ls ds) =
           (if js_gt (getTime (updatedAt a)) (getTime (updatedAt b)) then [UpdateDeployedTodo a]
            else if js_gt (getTime (updatedAt b)) (getTime (updatedAt a)) then [UpdateLocalTodo b]
            else [])"
proof -
  have l: "map_of (todosMap ls) (id_todo a) = Some a"
    using assms(1,3) by (rule todosMap_get)
  have d: "map_of (todosMap ds) (id_todo a) = Some b"
    using todosMap_get[OF assms(2,4)] assms(5) by simp
  show ?thesis
    unfolding syncTwoWay_calls_for_id by (simp add: l d commonStep_def Let_def)
qed

lemma syncTwoWay_calls_localOnly:
  assumes "distinct (map id_todo ls)" "a \<in> set ls" "id_todo a \<notin> id_todo ` set ds"
  shows "filter (\<lambda>c. call_id c = id_todo a) (syncTwoWay_calls getTime ls ds) = [CreateDeployedTodo a]"
proof -
  have l: "map_of (todosMap ls) (id_todo a) = Some a"
    using assms(1,2) by (rule todosMap_get)
  have d: "map_of (todosMap ds) (id_todo a) = None"
    using assms(3) by (rule todosMap_get_None)
  show ?thesis
    unfolding syncTwoWay_calls_for_id by (simp add: l d)
qed

lemma syncTwoWay_calls_deployedOnly:
  assumes "distinct (map id_todo ds)" "b \<in> set ds" "id_todo b \<notin> id_todo ` set ls"
  shows "filter (\<lambda>c. call_id c = id_todo b) (syncTwoWay_calls getTime ls ds) = [CreateLocalTodo b]"
proof -
  have d: "map_of (todosMap ds) (id_todo b) = Some b"
    using assms(1,2) by (rule todosMap_get)
  have l: "map_of (todosMap ls) (id_todo b) = None"
    using assms(3) by (rule todosMap_get_None)
  show ?thesis
    unfolding syncTwoWay_calls_for_id by (simp add: l d)
qed



lemma mergeStep_lookup:
  "map_of (mergeStep getTime m l) j =
     (if j = id_todo l then
        (case map_of m j of
           None \<Rightarrow> Some l
         | Some d \<Rightarrow> Some (if js_gt (getTime (updatedAt l)) (getTime (updatedAt d)) then l else d))
      else map_of m j)"
  by (simp add: mergeStep_def Let_def update_conv' split: option.splits)

lemma merge_lookup:
  "distinct (map id_todo ls) \<Longrightarrow>
   map_of (foldl (mergeStep getTime) m ls) i =
     (case find_todo i ls of
        None \<Rightarrow> map_of m i
      | Some l \<Rightarrow>
          (case map_of m i of
             None \<Rightarrow> Some l
           | Some d \<Rightarrow> Some (if js_gt (getTime (updatedAt l)) (getTime (updatedAt d)) then l else d)))"
proof (induction ls arbitrary: m)
  case Nil show ?case by (simp add: find_todo_def)
next
  case (Cons l ls)
  have d: "distinct (map id_todo ls)" using Cons.prems by simp
  show ?case
  proof (cases "i = id_todo l")
    case True
    then have "find_todo i ls = None" using Cons.prems by (simp add: find_todo_None)
    then show ?thesis using Cons.IH[OF d, of "mergeStep getTime m l"] True
      by (simp add: mergeStep_lookup find_todo_def)
  next
    case False
    then show ?thesis using Cons.IH[OF d, of "mergeStep getTime m l"]
      by (simp add: mergeStep_lookup find_todo_def cong: option.case_cong)
  qed
qed

lemma keyed_update: "keyed m \<Longrightarrow> keyed (AList.update (id_todo t) t m)"
  unfolding keyed_def using set_update_subset[of "id_todo t" t m]
  by (auto simp: distinct_update)

lemma keyed_mergeStep: "keyed m \<Longrightarrow> keyed (mergeStep getTime m l)"
  by (simp add: mergeStep_def Let_def keyed_update split: option.splits)

lemma keyed_foldl: "keyed m \<Longrightarrow> keyed (foldl (mergeStep getTime) m ls)"
  by (induction ls arbitrary: m) (simp_all add: keyed_mergeStep)

lemma keyed_todosMap: "keyed (todosMap ts)"
proof -
  have "keyed (foldl (\<lambda>m t. AList.update (id_todo t) t m) acc ts)" if "keyed acc" for acc
    using that by (induction ts arbitrary: acc) (simp_all add: keyed_update)
  from this[of "[]"] show ?thesis by (simp add: todosMap_def keyed_def)
qed

lemma keyed_find: "keyed m \<Longrightarrow> find_todo i (map snd m) = map_of m i"
proof (induction m)
  case Nil show ?case by (simp add: find_todo_def)
next
  case (Cons p m)
  then have k: "keyed m" and p: "id_todo (snd p) = fst p" by (auto simp: keyed_def)
  show ?case using Cons.IH[OF k] p by (cases p) (auto simp: find_todo_def)
qed

lemma mergedItems_find:
  assumes "distinct (map id_todo ls)" "distinct (map id_todo ds)"
  shows "find_todo i (mergedItems getTime ls ds) =
     (case find_todo i ls of
        None \<Rightarrow> find_todo i ds
      | Some l \<Rightarrow>
          (case find_todo i ds of
             None \<Rightarrow> Some l
           | Some d \<Rightarrow> Some (if js_gt (getTime (updatedAt l)) (getTime (updatedAt d)) then l else d)))"
  unfolding mergedItems_def
  by (simp add: keyed_find[OF keyed_foldl[OF keyed_todosMap]] merge_lookup[OF assms(1)]
        todosMap_find[OF assms(2)] cong: option.case_cong)

section \<open>Facts about the commands a run issues\<close>

declare executeWithRetry.simps [simp del]


lemma extends_refl: "extends sh A s s"
  unfolding extends_def by (rule exI[of _ "[]"]) (simp add: replay_def)

lemma extends_trans:
  assumes "extends sh A s s1" "extends sh B s1 s2"
  shows "extends sh (A \<union> B) s s2"
proof -
  from assms(1) obtain cs where 1: "fst s1 = fst s @ cs" "set cs \<subseteq> A" "snd s1 = replay sh cs (snd s)"
    unfolding extends_def by blast
  from assms(2) obtain ds where 2: "fst s2 = fst s1 @ ds" "set ds \<subseteq> B" "snd s2 = replay sh ds (snd s1)"
    unfolding extends_def by blast
  have "fst s2 = fst s @ (cs @ ds)" "set (cs @ ds) \<subseteq> A \<union> B" "snd s2 = replay sh (cs @ ds) (snd s)"
    using 1 2 by (auto simp: replay_def)
  then show ?thesis unfolding extends_def by blast
qed

lemma extends_mono: "extends sh A s s' \<Longrightarrow> A \<subseteq> B \<Longrightarrow> extends sh B s s'"
  unfolding extends_def by blast

lemma extends_step:
  "extends sh A s s1 \<Longrightarrow> extends sh B s1 s2 \<Longrightarrow> A \<subseteq> C \<Longrightarrow> B \<subseteq> C \<Longrightarrow> extends sh C s s2"
  using extends_mono[OF extends_trans, of sh A s s1 B s2 C] by simp

lemma extends_execSync: "execSync sh c s = (r, s') \<Longrightarrow> extends sh {c} s s'"
  unfolding extends_def execSync_def
  by (rule exI[of _ "[c]"]) (auto simp: replay_def split: prod.splits)

lemma extends_executeWithRetry:
  "executeWithRetry sh c opts n s = (r, s') \<Longrightarrow> extends sh {c, Sleep (retryDelay_of opts)} s s'"
proof (induction sh c opts n s arbitrary: r s' rule: executeWithRetry.induct)
  case (1 sh c opts n s)
  let ?A = "{c, Sleep (retryDelay_of opts)}"
  obtain x s1 where e1: "execSync sh c s = (x, s1)" by (cases "execSync sh c s")
  have x1: "extends sh ?A s s1" using extends_execSync[OF e1] by (rule extends_mono) simp
  show ?case
  proof (cases x)
    case (Some out)
    with 1(2) e1 have "s' = s1" by (subst (asm) executeWithRetry.simps) simp
    with x1 show ?thesis by simp
  next
    case None
    show ?thesis
    proof (cases "n < maxRetries_of opts \<and> \<not> noRetry opts")
      case True
      obtain y s2 where e2: "execSync sh (Sleep (retryDelay_of opts)) s1 = (y, s2)"
        by (cases "execSync sh (Sleep (retryDelay_of opts)) s1")
      have x2: "extends sh ?A s1 s2" using extends_execSync[OF e2] by (rule extends_mono) simp
      have x12: "extends sh ?A s s2" using x1 x2 by (rule extends_step) simp_all
      show ?thesis
      proof (cases y)
        case None': None
        with 1(2) e1 e2 None True have "s' = s2" by (subst (asm) executeWithRetry.simps) simp
        with x12 show ?thesis by simp
      next
        case (Some z)
        with 1(2) e1 e2 None True have r: "executeWithRetry sh c opts (n + 1) s2 = (r, s')"
          by (subst (asm) executeWithRetry.simps) simp
        have "extends sh ?A s2 s'"
          using "1.IH"[OF e1[symmetric] None _ e2[symmetric] Some r] True by simp
        with x12 show ?thesis by (rule extends_step) simp_all
      qed
    next
      case False
      with 1(2) e1 None have "s' = s1" by (subst (asm) executeWithRetry.simps) (auto split: if_splits)
      with x1 show ?thesis by simp
    qed
  qed
qed

lemma retryDelay_defaults [simp]:
  "retryDelay_of opts_silent = 1000" "retryDelay_of opts_ignoreError = 1000"
  "maxRetries_of opts_silent = 3" "maxRetries_of opts_ignoreError = 3"
  by (simp_all add: retryDelay_of_def maxRetries_of_def opts_silent_def opts_ignoreError_def)

lemma extends_execute:
  "execute sh c opts s = (r, s') \<Longrightarrow> retryDelay_of opts = 1000 \<Longrightarrow> extends sh {c, Sleep 1000} s s'"
  using extends_executeWithRetry[of sh c opts 0 s r s'] by (simp add: execute_def)

lemma extends_ensureSandboxRunning:
  assumes "ensureSandboxRunning sh s = (r, s')"
  shows "extends sh sandbox_commands s s'"
proof -
  obtain r1 s1 where e1: "execute sh PsSandbox opts_ignoreError s = (r1, s1)"
    by (cases "execute sh PsSandbox opts_ignoreError s")
  obtain r2 s2 where e2: "execute sh StartSandbox opts_ignoreError s1 = (r2, s2)"
    by (cases "execute sh StartSandbox opts_ignoreError s1")
  obtain r3 s3 where e3: "execute sh (Sleep 5000) opts_silent s2 = (r3, s3)"
    by (cases "execute sh (Sleep 5000) opts_silent s2")
  obtain r4 s4 where e4: "execute sh PsSandbox opts_ignoreError s3 = (r4, s4)"
    by (cases "execute sh PsSandbox opts_ignoreError s3")
  have x1: "extends sh sandbox_commands s s1"
    using extends_execute[OF e1 retryDelay_defaults(2)] by (rule extends_mono) (simp add: sandbox_commands_def)
  have x2: "extends sh sandbox_commands s1 s2"
    using extends_execute[OF e2 retryDelay_defaults(2)] by (rule extends_mono) (simp add: sandbox_commands_def)
  have x3: "extends sh sandbox_commands s2 s3"
    using extends_execute[OF e3 retryDelay_defaults(1)] by (rule extends_mono) (simp add: sandbox_commands_def)
  have x4: "extends sh sandbox_commands s3 s4"
    using extends_execute[OF e4 retryDelay_defaults(2)] by (rule extends_mono) (simp add: sandbox_commands_def)
  have y2: "extends sh sandbox_commands s s2" using x1 x2 by (rule extends_step) simp_all
  have y3: "extends sh sandbox_commands s s3" using y2 x3 by (rule extends_step) simp_all
  have y4: "extends sh sandbox_commands s s4" using y3 x4 by (rule extends_step) simp_all
  have "s' = s1 \<or> s' = s2 \<or> s' = s3 \<or> s' = s4"
    using assms e1 e2 e3 e4
    by (auto simp: ensureSandboxRunning_def split: res.splits option.splits)
  with x1 y2 y3 y4 show ?thesis by blast
qed

lemma extends_localRequest:
  assumes "localRequest sh q s = (r, s')"
  shows "extends sh (request_commands Local q) s s'"
proof -
  obtain r1 s1 where e1: "ensureSandboxRunning sh s = (r1, s1)"
    by (cases "ensureSandboxRunning sh s")
  obtain r2 s2 where e2: "execute sh (Curl Local q) opts_ignoreError s1 = (r2, s2)"
    by (cases "execute sh (Curl Local q) opts_ignoreError s1")
  have x1: "extends sh (request_commands Local q) s s1"
    using extends_ensureSandboxRunning[OF e1]
    by (rule extends_mono) (auto simp: request_commands_def)
  have x2: "extends sh (request_commands Local q) s1 s2"
    using extends_execute[OF e2 retryDelay_defaults(2)]
    by (rule extends_mono) (simp add: request_commands_def sandbox_commands_def)
  have y2: "extends sh (request_commands Local q) s s2" using x1 x2 by (rule extends_step) simp_all
  have "s' = s1 \<or> s' = s2"
    using assms e1 e2 by (auto simp: localRequest_def split: res.splits bool.splits)
  with x1 y2 show ?thesis by blast
qed

lemma extends_executeGraphQL:
  assumes "executeGraphQL sh q s = (r, s')"
  shows "extends sh (request_commands Deployed q) s s'"
proof -
  obtain r1 s1 where e1: "execute sh (Curl Deployed q) opts_silent s = (r1, s1)"
    by (cases "execute sh (Curl Deployed q) opts_silent s")
  have "s' = s1" using assms e1 by (simp add: executeGraphQL_def)
  with extends_execute[OF e1 retryDelay_defaults(1)] show ?thesis by (simp add: request_commands_def)
qed

lemma extends_listLocalTodos:
  "listLocalTodos sh s = (r, s') \<Longrightarrow> extends sh (request_commands Local ListTodos) s s'"
  by (auto simp: listLocalTodos_def split: prod.splits dest: extends_localRequest)

lemma extends_listDeployedTodos:
  "listDeployedTodos sh s = (r, s') \<Longrightarrow> extends sh (request_commands Deployed ListTodos) s s'"
  by (auto simp: listDeployedTodos_def split: prod.splits dest: extends_executeGraphQL)

lemma extends_perform:
  "perform sh c s = (r, s') \<Longrightarrow> extends sh (request_commands (call_target c) (call_request c)) s s'"
  by (cases c)
     (auto simp: updateDeployedTodo_def updateLocalTodo_def createDeployedTodo_def
        createLocalTodo_def split: prod.splits dest: extends_executeGraphQL extends_localRequest)

lemma extends_run_calls:
  "run_calls sh cs s = (r, s') \<Longrightarrow>
   extends sh (\<Union>c \<in> set cs. request_commands (call_target c) (call_request c)) s s'"
proof (induction cs arbitrary: s)
  case Nil then show ?case by (simp add: extends_refl)
next
  case (Cons c cs)
  let ?A = "\<Union>c \<in> set (c # cs). request_commands (call_target c) (call_request c)"
  obtain r1 s1 where p: "perform sh c s = (r1, s1)" by (cases "perform sh c s")
  have x1: "extends sh ?A s s1"
    using extends_perform[OF p] by (rule extends_mono) auto
  show ?case
  proof (cases r1)
    case (Ret x)
    with Cons.prems p have "run_calls sh cs s1 = (r, s')" by simp
    from Cons.IH[OF this] have "extends sh ?A s1 s'" by (rule extends_mono) auto
    with x1 show ?thesis by (rule extends_step) simp_all
  next
    case Exit
    with Cons.prems p have "s' = s1" by simp
    with x1 show ?thesis by simp
  next
    case Thrown
    with Cons.prems p have "s' = s1" by simp
    with x1 show ?thesis by simp
  qed
qed

lemma caught_state: "caught p = (r, s') \<Longrightarrow> snd p = s'"
  by (cases p rule: caught.cases) auto

lemma extends_sync_with:
  assumes "sync_with calls sh s = (r, s')"
  shows "\<exists>ls ds. extends sh (request_commands Local ListTodos \<union> request_commands Deployed ListTodos
            \<union> (\<Union>c \<in> set (calls ls ds). request_commands (call_target c) (call_request c))) s s'"
proof -
  define L where "L = request_commands Local ListTodos \<union> request_commands Deployed ListTodos"
  obtain r1 s1 where e1: "listLocalTodos sh s = (r1, s1)" by (cases "listLocalTodos sh s")
  obtain r2 s2 where e2: "listDeployedTodos sh s1 = (r2, s2)" by (cases "listDeployedTodos sh s1")
  have x1: "extends sh L s s1"
    using extends_listLocalTodos[OF e1] by (rule extends_mono) (simp add: L_def)
  have x2: "extends sh L s1 s2"
    using extends_listDeployedTodos[OF e2] by (rule extends_mono) (simp add: L_def)
  have y2: "extends sh L s s2" using x1 x2 by (rule extends_step) simp_all
  show ?thesis
  proof (cases "\<exists>ls ds. r1 = Ret ls \<and> r2 = Ret ds")
    case True
    then obtain ls ds where r: "r1 = Ret ls" "r2 = Ret ds" by blast
    define C where "C = (\<Union>c \<in> set (calls ls ds). request_commands (call_target c) (call_request c))"
    obtain r3 s3 where e3: "run_calls sh (calls ls ds) s2 = (r3, s3)"
      by (cases "run_calls sh (calls ls ds) s2")
    have x3: "extends sh C s2 s3" using extends_run_calls[OF e3] by (simp add: C_def)
    have "s' = s3" using assms e1 e2 e3 r caught_state[of "(r3, s3)" r s']
      by (simp add: sync_with_def)
    moreover have "extends sh (L \<union> C) s s3" using y2 x3 by (rule extends_trans)
    ultimately show ?thesis unfolding L_def C_def by blast
  next
    case False
    then have "s' = s1 \<or> s' = s2"
      using assms e1 e2 by (auto simp: sync_with_def split: res.splits)
    moreover have "extends sh (L \<union> (\<Union>c \<in> set (calls [] []). request_commands (call_target c) (call_request c))) s s1"
      using x1 by (rule extends_mono) simp
    moreover have "extends sh (L \<union> (\<Union>c \<in> set (calls [] []). request_commands (call_target c) (call_request c))) s s2"
      using y2 by (rule extends_mono) simp
    ultimately show ?thesis unfolding L_def by blast
  qed
qed


lemma localToDeployed_targets:
  "c \<in> set (syncLocalToDeployed_calls getTime ls ds) \<Longrightarrow> call_target c = Deployed"
  by (auto simp: syncLocalToDeployed_calls_def localToDeployedStep_def Let_def
        split: option.splits if_splits)

lemma deployedToLocal_targets:
  "c \<in> set (syncDeployedToLocal_calls getTime ls ds) \<Longrightarrow> call_target c = Local"
  by (auto simp: syncDeployedToLocal_calls_def deployedToLocalStep_def Let_def
        split: option.splits if_splits)

lemma no_write_list: "c \<in> request_commands r ListTodos \<Longrightarrow> \<not> is_write_to r' c"
  by (cases r) (auto simp: request_commands_def sandbox_commands_def)

lemma no_write_other: "c \<in> request_commands r q \<Longrightarrow> r \<noteq> r' \<Longrightarrow> \<not> is_write_to r' c"
  by (cases r; cases q) (auto simp: request_commands_def sandbox_commands_def)

lemma extendsD:
  "extends sh A s s' \<Longrightarrow> (\<And>c. c \<in> A \<Longrightarrow> P c) \<Longrightarrow>
   \<exists>cs. fst s' = fst s @ cs \<and> (\<forall>c \<in> set cs. P c) \<and> snd s' = replay sh cs (snd s)"
  unfolding extends_def by blast

lemma backend_frame:
  "\<not> is_write_to r c \<Longrightarrow> store_of r (snd (backend_sh c b)) = store_of r b"
  by (cases c; cases r)
     (auto simp: backend_sh_def backend_request_def store_of_def set_store_def
        split: request.splits prod.splits option.splits replica.splits)

lemma replay_frame:
  "\<forall>c \<in> set cs. \<not> is_write_to r c \<Longrightarrow> store_of r (replay backend_sh cs b) = store_of r b"
proof (induction cs arbitrary: b)
  case Nil show ?case by (simp add: replay_def)
next
  case (Cons c cs)
  have "replay backend_sh (c # cs) b = replay backend_sh cs (snd (backend_sh c b))"
    by (simp add: replay_def)
  with Cons show ?case by (simp add: backend_frame)
qed

lemma one_way_no_write:
  assumes "sync_with calls sh s = (r, s')"
    and "\<And>ls ds c. c \<in> set (calls ls ds) \<Longrightarrow> call_target c \<noteq> side"
  shows "\<exists>cs. fst s' = fst s @ cs \<and> (\<forall>c \<in> set cs. \<not> is_write_to side c) \<and>
              snd s' = replay sh cs (snd s)"
proof -
  from extends_sync_with[OF assms(1)] obtain ls ds where
    x: "extends sh (request_commands Local ListTodos \<union> request_commands Deployed ListTodos
            \<union> (\<Union>c \<in> set (calls ls ds). request_commands (call_target c) (call_request c))) s s'"
    by blast
  show ?thesis
    using x
  proof (rule extendsD)
    fix c
    assume "c \<in> request_commands Local ListTodos \<union> request_commands Deployed ListTodos
            \<union> (\<Union>c \<in> set (calls ls ds). request_commands (call_target c) (call_request c))"
    then show "\<not> is_write_to side c"
      using no_write_list no_write_other assms(2) by blast
  qed
qed

section \<open>Evaluating runs on the samples\<close>

lemmas run_defs = syncLocalToDeployed_def syncDeployedToLocal_def syncTwoWay_def sync_with_def
  listLocalTodos_def listDeployedTodos_def localRequest_def ensureSandboxRunning_def
  executeGraphQL_def createDeployedTodo_def updateDeployedTodo_def createLocalTodo_def
  updateLocalTodo_def execute_def executeWithRetry.simps execSync_def
  opts_silent_def opts_ignoreError_def maxRetries_of_def retryDelay_of_def
  syncTwoWay_calls_def syncLocalToDeployed_calls_def syncDeployedToLocal_calls_def
  commonStep_def createStep_def localToDeployedStep_def deployedToLocalStep_def
  todosMap_def has_def keys_def createTodoInput_def updateTodoInput_def Let_def

lemmas backend_defs = backend_sh_def backend_request_def store_of_def set_store_def
  store_create_def store_update_def find_todo_def sample_backend_def

lemmas sample_defs = sample_getTime_def todo_new_def todo_old_def todo_tie_def todo_bad_def
  todo_bad_old_def todo2_local_def todo2_deployed_def todo3_local_def todo3_deployed_def

lemma run_local_to_deployed:
  "syncLocalToDeployed backend_sh sample_getTime
          ([], sample_backend [todo_new] [todo_old, todo3_deployed])
   = (Ret (),
      ([PsSandbox, Curl Local ListTodos, Curl Deployed ListTodos,
        Curl Deployed (UpdateTodo \<lparr>ui_id = ''1'', ui_content = ''buy milk'', ui_completed = False\<rparr>)],
       (sample_backend [todo_new]
          [todo_old\<lparr>content := ''buy milk'', completed := False,
                    updatedAt := ''2024-06-01T00:00:00.000Z''\<rparr>, todo3_deployed])\<lparr>ticks := 1\<rparr>))"
  by (simp add: run_defs backend_defs sample_defs)

lemma run_deployed_to_local:
  "syncDeployedToLocal backend_sh sample_getTime
          ([], sample_backend [todo_new] [todo_old, todo3_deployed])
   = (Ret (),
      ([PsSandbox, Curl Local ListTodos, Curl Deployed ListTodos, PsSandbox,
        Curl Local (CreateTodo \<lparr>ci_id = Some ''3'', ci_content = ''three'', ci_completed = False\<rparr>)],
       (sample_backend
          [todo_new, \<lparr>id_todo = ''3'', content = ''three'', completed = False,
                      createdAt = ''2024-06-01T00:00:00.000Z'',
                      updatedAt = ''2024-06-01T00:00:00.000Z''\<rparr>]
          [todo_old, todo3_deployed])\<lparr>ticks := 1\<rparr>))"
  by (simp add: run_defs backend_defs sample_defs)

lemma run_local_list_fails:
  "syncTwoWay sh_local_list_fails sample_getTime ([], ())
   = (Ret (),
      ([PsSandbox, Curl Local ListTodos, Sleep 1000, Curl Local ListTodos, Sleep 1000,
        Curl Local ListTodos, Sleep 1000, Curl Local ListTodos, Curl Deployed ListTodos,
        PsSandbox,
        Curl Local (CreateTodo \<lparr>ci_id = Some ''1'', ci_content = ''buy bread'', ci_completed = True\<rparr>)],
       ()))"
  by (simp add: run_defs sh_local_list_fails_def sample_defs)

lemma run_update2_fails:
  "syncTwoWay sh_update2_fails sample_getTime ([], ())
   = (Exit,
      ([PsSandbox, Curl Local ListTodos, Curl Deployed ListTodos,
        Curl Deployed (UpdateTodo \<lparr>ui_id = ''2'', ui_content = ''two, edited'', ui_completed = False\<rparr>),
        Sleep 1000,
        Curl Deployed (UpdateTodo \<lparr>ui_id = ''2'', ui_content = ''two, edited'', ui_completed = False\<rparr>),
        Sleep 1000,
        Curl Deployed (UpdateTodo \<lparr>ui_id = ''2'', ui_content = ''two, edited'', ui_completed = False\<rparr>),
        Sleep 1000,
        Curl Deployed (UpdateTodo \<lparr>ui_id = ''2'', ui_content = ''two, edited'', ui_completed = False\<rparr>)],
       ()))"
  by (simp add: run_defs sh_update2_fails_def sample_defs)

lemma run_deployed_no_data:
  "syncTwoWay sh_deployed_no_data sample_getTime ([], ())
   = (Ret (),
      ([PsSandbox, Curl Local ListTodos, Curl Deployed ListTodos,
        Curl Deployed (CreateTodo \<lparr>ci_id = Some ''1'', ci_content = ''buy milk'', ci_completed = False\<rparr>)],
       ()))"
  by (simp add: run_defs sh_deployed_no_data_def sample_defs)

lemma run_local_update2_fails:
  "syncTwoWay sh_local_update2_fails sample_getTime ([], ())
   = (Ret (),
      ([PsSandbox, Curl Local ListTodos, Curl Deployed ListTodos, PsSandbox,
        Curl Local (UpdateTodo \<lparr>ui_id = ''2'', ui_content = ''two, edited'', ui_completed = False\<rparr>),
        Sleep 1000,
        Curl Local (UpdateTodo \<lparr>ui_id = ''2'', ui_content = ''two, edited'', ui_completed = False\<rparr>),
        Sleep 1000,
        Curl Local (UpdateTodo \<lparr>ui_id = ''2'', ui_content = ''two, edited'', ui_completed = False\<rparr>),
        Sleep 1000,
        Curl Local (UpdateTodo \<lparr>ui_id = ''2'', ui_content = ''two, edited'', ui_completed = False\<rparr>),
        PsSandbox,
        Curl Local (UpdateTodo \<lparr>ui_id = ''3'', ui_content = ''three, edited'', ui_completed = False\<rparr>)],
       ()))"
  by (simp add: run_defs sh_local_update2_fails_def sample_defs)

lemma lists_local_list_fails:
  "listLocalTodos sh_local_list_fails ([], ())
     = (Ret [], ([PsSandbox, Curl Local ListTodos, Sleep 1000, Curl Local ListTodos, Sleep 1000,
                  Curl Local ListTodos, Sleep 1000, Curl Local ListTodos], ()))"
  "listDeployedTodos sh_local_list_fails
       ([PsSandbox, Curl Local ListTodos, Sleep 1000, Curl Local ListTodos, Sleep 1000,
         Curl Local ListTodos, Sleep 1000, Curl Local ListTodos], ())
     = (Ret [todo_old],
        ([PsSandbox, Curl Local ListTodos, Sleep 1000, Curl Local ListTodos, Sleep 1000,
          Curl Local ListTodos, Sleep 1000, Curl Local ListTodos, Curl Deployed ListTodos], ()))"
  by (simp_all add: run_defs sh_local_list_fails_def)

lemma lists_deployed_no_data:
  "listLocalTodos sh_deployed_no_data ([], ())
     = (Ret [todo_new], ([PsSandbox, Curl Local ListTodos], ()))"
  "listDeployedTodos sh_deployed_no_data ([PsSandbox, Curl Local ListTodos], ())
     = (Ret [], ([PsSandbox, Curl Local ListTodos, Curl Deployed ListTodos], ()))"
  by (simp_all add: run_defs sh_deployed_no_data_def)

lemma run_two_way:
  "syncTwoWay backend_sh sample_getTime
          ([], sample_backend [todo_new, todo_bad] [todo_old, todo3_deployed])
   = (Ret (),
      ([PsSandbox, Curl Local ListTodos, Curl Deployed ListTodos,
        Curl Deployed (UpdateTodo \<lparr>ui_id = ''1'', ui_content = ''buy milk'', ui_completed = False\<rparr>),
        Curl Deployed (CreateTodo \<lparr>ci_id = Some ''2'', ci_content = ''call home'', ci_completed = False\<rparr>),
        PsSandbox,
        Curl Local (CreateTodo \<lparr>ci_id = Some ''3'', ci_content = ''three'', ci_completed = False\<rparr>)],
       (sample_backend
          [todo_new, todo_bad,
           \<lparr>id_todo = ''3'', content = ''three'', completed = False,
              createdAt = ''2024-06-01T00:00:00.000Z'', updatedAt = ''2024-06-01T00:00:00.000Z''\<rparr>]
          [todo_old\<lparr>content := ''buy milk'', completed := False,
                    updatedAt := ''2024-06-01T00:00:00.000Z''\<rparr>,
           todo3_deployed,
           \<lparr>id_todo = ''2'', content = ''call home'', completed = False,
              createdAt = ''2024-06-01T00:00:00.000Z'', updatedAt = ''2024-06-01T00:00:00.000Z''\<rparr>])
        \<lparr>ticks := 3\<rparr>))"
  by (simp add: run_defs backend_defs sample_defs)

lemma run_two_way_tie:
  "syncTwoWay backend_sh sample_getTime ([], sample_backend [todo_new] [todo_tie])
   = (Ret (), ([PsSandbox, Curl Local ListTodos, Curl Deployed ListTodos],
               sample_backend [todo_new] [todo_tie]))"
  by (simp add: run_defs backend_defs sample_defs)

lemma run_two_way_newer:
  "syncTwoWay backend_sh sample_getTime ([], sample_backend [todo_new] [todo_old])
   = (Ret (),
      ([PsSandbox, Curl Local ListTodos, Curl Deployed ListTodos,
        Curl Deployed (UpdateTodo \<lparr>ui_id = ''1'', ui_content = ''buy milk'', ui_completed = False\<rparr>)],
       (sample_backend [todo_new]
          [todo_old\<lparr>content := ''buy milk'', completed := False,
                    updatedAt := ''2024-06-01T00:00:00.000Z''\<rparr>])\<lparr>ticks := 1\<rparr>))"
  by (simp add: run_defs backend_defs sample_defs)

lemma execute_first_try:
  "sh c w = (Some out, w') \<Longrightarrow> execute sh c opts (tr, w) = (Ret (Some out), (tr @ [c], w'))"
  by (simp add: execute_def executeWithRetry.simps execSync_def)

lemma concat_createStep:
  "distinct (map id_todo ts) \<Longrightarrow>
   concat (map (createStep f (todosMap ts)) (map id_todo ts)) = map f ts"
proof -
  assume d: "distinct (map id_todo ts)"
  have "\<forall>t \<in> set ts. createStep f (todosMap ts) (id_todo t) = [f t]"
    using todosMap_get[OF d] by (simp add: createStep_def)
  then have "concat (map (createStep f (todosMap ts)) (map id_todo xs)) = map f xs"
    if "set xs \<subseteq> set ts" for xs
    using that by (induction xs) auto
  from this[of ts] show ?thesis by simp
qed

lemma todosMap_Nil: "todosMap [] = []"
  by (simp add: todosMap_def)

lemma todosMap_keys_distinct: "distinct (map id_todo ts) \<Longrightarrow> keys (todosMap ts) = map id_todo ts"
  by (simp add: todosMap_of_distinct keys_def comp_def)

lemma syncTwoWay_calls_empty_local:
  assumes "distinct (map id_todo ds)"
  shows "syncTwoWay_calls getTime [] ds = map CreateLocalTodo ds"
proof -
  have k: "keys (todosMap ds) = map id_todo ds" using assms by (rule todosMap_keys_distinct)
  have "syncTwoWay_calls getTime [] ds
      = concat (map (createStep CreateLocalTodo (todosMap ds)) (map id_todo ds))"
    unfolding syncTwoWay_calls_def Let_def todosMap_Nil k
    by (simp add: has_def keys_def del: map_map)
  then show ?thesis by (simp only: concat_createStep[OF assms])
qed

lemma syncTwoWay_calls_empty_deployed:
  assumes "distinct (map id_todo ls)"
  shows "syncTwoWay_calls getTime ls [] = map CreateDeployedTodo ls"
proof -
  have k: "keys (todosMap ls) = map id_todo ls" using assms by (rule todosMap_keys_distinct)
  have "syncTwoWay_calls getTime ls []
      = concat (map (createStep CreateDeployedTodo (todosMap ls)) (map id_todo ls))"
    unfolding syncTwoWay_calls_def Let_def todosMap_Nil k
    by (simp add: has_def keys_def del: map_map)
  then show ?thesis by (simp only: concat_createStep[OF assms])
qed

lemma execSync_result: "execSync sh c s = (x, s1) \<Longrightarrow> x = fst (sh c (snd s))"
  by (auto simp: execSync_def split: prod.splits)

lemma executeWithRetry_Some:
  "executeWithRetry sh c opts n s = (Ret (Some out), s') \<Longrightarrow> \<exists>w. fst (sh c w) = Some out"
proof (induction sh c opts n s rule: executeWithRetry.induct)
  case (1 sh c opts n s)
  obtain x s1 where e1: "execSync sh c s = (x, s1)" by (cases "execSync sh c s")
  show ?case
  proof (cases x)
    case (Some y)
    with "1.prems" e1 have "y = out" by (subst (asm) executeWithRetry.simps) simp
    with Some execSync_result[OF e1] show ?thesis by (intro exI[of _ "snd s"]) simp
  next
    case None
    obtain y s2 where e2: "execSync sh (Sleep (retryDelay_of opts)) s1 = (y, s2)"
      by (cases "execSync sh (Sleep (retryDelay_of opts)) s1")
    show ?thesis
    proof (cases "n < maxRetries_of opts \<and> \<not> noRetry opts")
      case True
      show ?thesis
      proof (cases y)
        case N: None
        with "1.prems" e1 e2 None True show ?thesis
          by (subst (asm) executeWithRetry.simps) simp
      next
        case (Some z)
        with "1.prems" e1 e2 None True
        have "executeWithRetry sh c opts (n + 1) s2 = (Ret (Some out), s')"
          by (subst (asm) executeWithRetry.simps) simp
        with "1.IH"[OF e1[symmetric] None True e2[symmetric] Some] show ?thesis by simp
      qed
    next
      case False
      with "1.prems" e1 None show ?thesis
        by (subst (asm) executeWithRetry.simps) (auto split: if_splits)
    qed
  qed
qed

lemma executeWithRetry_ignoreError:
  "executeWithRetry sh c opts n s = (r, s') \<Longrightarrow> ignoreError opts \<Longrightarrow> r \<noteq> Exit"
proof (induction sh c opts n s rule: executeWithRetry.induct)
  case (1 sh c opts n s)
  obtain x s1 where e1: "execSync sh c s = (x, s1)" by (cases "execSync sh c s")
  show ?case
  proof (cases x)
    case (Some y)
    with "1.prems" e1 show ?thesis by (subst (asm) executeWithRetry.simps) auto
  next
    case None
    obtain y s2 where e2: "execSync sh (Sleep (retryDelay_of opts)) s1 = (y, s2)"
      by (cases "execSync sh (Sleep (retryDelay_of opts)) s1")
    show ?thesis
    proof (cases "n < maxRetries_of opts \<and> \<not> noRetry opts")
      case True
      show ?thesis
      proof (cases y)
        case N: None
        with "1.prems" e1 e2 None True show ?thesis
          by (subst (asm) executeWithRetry.simps) auto
      next
        case (Some z)
        with "1.prems" e1 e2 None True
        have "executeWithRetry sh c opts (n + 1) s2 = (r, s')"
          by (subst (asm) executeWithRetry.simps) simp
        with "1.IH"[OF e1[symmetric] None True e2[symmetric] Some] "1.prems"(2)
        show ?thesis by simp
      qed
    next
      case False
      with "1.prems" e1 None show ?thesis
        by (subst (asm) executeWithRetry.simps) (auto split: if_splits)
    qed
  qed
qed

lemma executeWithRetry_exits:
  assumes "\<forall>w. fst (sh c w) = None" and "\<forall>w. fst (sh (Sleep (retryDelay_of opts)) w) \<noteq> None"
    and "\<not> ignoreError opts" and "exitOnError opts \<noteq> Some False"
  shows "fst (executeWithRetry sh c opts n s) = Exit"
  using assms
proof (induction sh c opts n s rule: executeWithRetry.induct)
  case (1 sh c opts n s)
  obtain x s1 where e1: "execSync sh c s = (x, s1)" by (cases "execSync sh c s")
  have "fst (sh c (snd s)) = None" using "1.prems"(1) by (elim allE)
  with execSync_result[OF e1] have None: "x = None" by simp
  obtain y s2 where e2: "execSync sh (Sleep (retryDelay_of opts)) s1 = (y, s2)"
    by (cases "execSync sh (Sleep (retryDelay_of opts)) s1")
  have "fst (sh (Sleep (retryDelay_of opts)) (snd s1)) \<noteq> None" using "1.prems"(2) by (elim allE)
  with execSync_result[OF e2] obtain z where Some: "y = Some z" by auto
  show ?case
  proof (cases "n < maxRetries_of opts \<and> \<not> noRetry opts")
    case True
    have "executeWithRetry sh c opts n s = executeWithRetry sh c opts (n + 1) s2"
      using e1 e2 None Some True by (subst executeWithRetry.simps) simp
    with "1.IH"[OF e1[symmetric] None True e2[symmetric] Some "1.prems"]
    show ?thesis by simp
  next
    case False
    then show ?thesis using e1 None "1.prems"(3,4)
      by (subst executeWithRetry.simps) auto
  qed
qed

lemma execute_ignoreError: "execute sh c opts_ignoreError s = (r, s') \<Longrightarrow> r \<noteq> Exit"
  unfolding execute_def by (erule executeWithRetry_ignoreError) (simp add: opts_ignoreError_def)

lemma ensureSandboxRunning_result:
  assumes "ensureSandboxRunning sh s = (q, s0)"
  shows "q = Ret True \<or> q = Ret False \<or> q = Exit"
  using assms unfolding ensureSandboxRunning_def
  by (auto split: prod.splits res.splits option.splits)

lemma listResult_not_Thrown: "listResult x \<noteq> Thrown"
  by (cases x rule: listResult.cases) simp_all

lemma listResult_Exit: "listResult x = Exit \<longleftrightarrow> x = Exit"
  by (cases x rule: listResult.cases) simp_all

lemma listResult_other:
  "x \<noteq> Exit \<Longrightarrow> (\<And>items. x \<noteq> Ret (Some (ListTodosData items))) \<Longrightarrow> listResult x = Ret []"
  by (cases x rule: listResult.cases) auto

lemma listLocalTodos_cases:
  assumes "ensureSandboxRunning sh s = (q, s0)" and "listLocalTodos sh s = (r1, s1)"
  shows "r1 \<noteq> Thrown" and "(r1 = Exit) = (q = Exit)"
    and "q = Ret False \<Longrightarrow> r1 = Ret [] \<and> s1 = s0"
    and "q \<noteq> Exit \<Longrightarrow> \<forall>w items. fst (sh (Curl Local ListTodos) w) \<noteq> Some (ListTodosData items)
           \<Longrightarrow> r1 = Ret []"
proof -
  obtain x s' where e: "execute sh (Curl Local ListTodos) opts_ignoreError s0 = (x, s')"
    by (cases "execute sh (Curl Local ListTodos) opts_ignoreError s0")
  note nx = execute_ignoreError[OF e]
  from ensureSandboxRunning_result[OF assms(1)]
  consider (t) "q = Ret True" | (f) "q = Ret False" | (x) "q = Exit" by blast
  then have r: "(q = Ret True \<and> r1 = listResult x) \<or> (q = Ret False \<and> r1 = Ret [] \<and> s1 = s0)
      \<or> (q = Exit \<and> r1 = Exit)"
    using assms e by cases (auto simp: listLocalTodos_def localRequest_def)
  from r show "r1 \<noteq> Thrown" using listResult_not_Thrown[of x] by auto
  from r nx show "(r1 = Exit) = (q = Exit)" using listResult_Exit[of x] by auto
  from r show "q = Ret False \<Longrightarrow> r1 = Ret [] \<and> s1 = s0" by auto
  show "r1 = Ret []" if q: "q \<noteq> Exit"
    and a: "\<forall>w items. fst (sh (Curl Local ListTodos) w) \<noteq> Some (ListTodosData items)"
  proof -
    have "x \<noteq> Ret (Some (ListTodosData items))" for items
    proof
      assume "x = Ret (Some (ListTodosData items))"
      with e have "executeWithRetry sh (Curl Local ListTodos) opts_ignoreError 0 s0
          = (Ret (Some (ListTodosData items)), s')" by (simp add: execute_def)
      from executeWithRetry_Some[OF this] obtain w where
        "fst (sh (Curl Local ListTodos) w) = Some (ListTodosData items)" by blast
      moreover from a have "fst (sh (Curl Local ListTodos) w) \<noteq> Some (ListTodosData items)"
        by (elim allE)
      ultimately show False by simp
    qed
    with nx have "listResult x = Ret []" by (rule listResult_other)
    with r q show ?thesis by auto
  qed
qed

lemma listDeployedTodos_cases:
  assumes "listDeployedTodos sh s = (r2, s2)"
  shows "r2 \<noteq> Thrown"
    and "\<forall>w. \<exists>x. fst (sh (Curl Deployed ListTodos) w) = Some x \<and> (\<forall>items. x \<noteq> ListTodosData items)
           \<Longrightarrow> r2 = Ret []"
    and "\<forall>w. fst (sh (Curl Deployed ListTodos) w) = None \<Longrightarrow> \<forall>w. fst (sh (Sleep 1000) w) \<noteq> None
           \<Longrightarrow> r2 = Exit"
proof -
  obtain x s' where e: "execute sh (Curl Deployed ListTodos) opts_silent s = (x, s')"
    by (cases "execute sh (Curl Deployed ListTodos) opts_silent s")
  have r: "r2 = listResult (graphqlResult x)"
    using assms e by (simp add: listDeployedTodos_def executeGraphQL_def)
  show "r2 \<noteq> Thrown" unfolding r by (rule listResult_not_Thrown)
  show "r2 = Ret []"
    if a: "\<forall>w. \<exists>x. fst (sh (Curl Deployed ListTodos) w) = Some x \<and> (\<forall>items. x \<noteq> ListTodosData items)"
  proof -
    obtain tr w where s: "s = (tr, w)" by (cases s)
    from a obtain y where y: "fst (sh (Curl Deployed ListTodos) w) = Some y"
      "\<forall>items. y \<noteq> ListTodosData items" by (elim allE [of _ w]) blast
    then obtain w' where "sh (Curl Deployed ListTodos) w = (Some y, w')"
      by (cases "sh (Curl Deployed ListTodos) w") auto
    then have "execute sh (Curl Deployed ListTodos) opts_silent (tr, w)
        = (Ret (Some y), (tr @ [Curl Deployed ListTodos], w'))"
      by (rule execute_first_try)
    with e s have "x = Ret (Some y)" by simp
    with y(2) show ?thesis unfolding r by (cases y) simp_all
  qed
  show "r2 = Exit"
    if a: "\<forall>w. fst (sh (Curl Deployed ListTodos) w) = None" and b: "\<forall>w. fst (sh (Sleep 1000) w) \<noteq> None"
  proof -
    have "fst (executeWithRetry sh (Curl Deployed ListTodos) opts_silent 0 s) = Exit"
      using a by (rule executeWithRetry_exits) (simp_all add: b, simp_all add: opts_silent_def)
    with e have "x = Exit" by (simp add: execute_def)
    then show ?thesis unfolding r by simp
  qed
qed

lemmas world_defs = sh_local_answers_def sh_deployed_answers_def sh_sandbox_down_def
  sh_wait_fails_def failed_probe_def

lemma lists_sandbox_down:
  "ensureSandboxRunning sh_sandbox_down ([], ())
     = (Ret False, (failed_probe @ [StartSandbox, Sleep 5000] @ failed_probe, ()))"
  "listLocalTodos sh_sandbox_down ([], ())
     = (Ret [], (failed_probe @ [StartSandbox, Sleep 5000] @ failed_probe, ()))"
  "listDeployedTodos sh_sandbox_down (failed_probe @ [StartSandbox, Sleep 5000] @ failed_probe, ())
     = (Ret [todo_old],
        (failed_probe @ [StartSandbox, Sleep 5000] @ failed_probe @ [Curl Deployed ListTodos], ()))"
  by (simp_all add: run_defs world_defs)

lemma run_sandbox_down:
  "syncTwoWay sh_sandbox_down sample_getTime ([], ())
   = (Ret (),
      (failed_probe @ [StartSandbox, Sleep 5000] @ failed_probe @ [Curl Deployed ListTodos]
         @ failed_probe @ [StartSandbox, Sleep 5000] @ failed_probe, ()))"
  by (simp add: run_defs world_defs sample_defs)

lemma lists_local_answers:
  "x = Some NoData \<or> x = Some Unparsable \<Longrightarrow>
   ensureSandboxRunning (sh_local_answers x) ([], ()) = (Ret True, ([PsSandbox], ()))
   \<and> listLocalTodos (sh_local_answers x) ([], ()) = (Ret [], ([PsSandbox, Curl Local ListTodos], ()))
   \<and> listDeployedTodos (sh_local_answers x) ([PsSandbox, Curl Local ListTodos], ())
     = (Ret [todo_old], ([PsSandbox, Curl Local ListTodos, Curl Deployed ListTodos], ()))"
  by (auto simp: run_defs world_defs)

lemma run_local_answers:
  "x = Some NoData \<or> x = Some Unparsable \<Longrightarrow>
   syncTwoWay (sh_local_answers x) sample_getTime ([], ())
   = (Ret (),
      ([PsSandbox, Curl Local ListTodos, Curl Deployed ListTodos, PsSandbox,
        Curl Local (CreateTodo \<lparr>ci_id = Some ''1'', ci_content = ''buy bread'', ci_completed = True\<rparr>)],
       ()))"
  by (auto simp: run_defs world_defs sample_defs)

lemma lists_deployed_answers:
  "ensureSandboxRunning (sh_deployed_answers x) ([], ()) = (Ret True, ([PsSandbox], ()))"
  "listLocalTodos (sh_deployed_answers x) ([], ())
     = (Ret [todo_new], ([PsSandbox, Curl Local ListTodos], ()))"
  "listDeployedTodos (sh_deployed_answers (Some Unparsable)) ([PsSandbox, Curl Local ListTodos], ())
     = (Ret [], ([PsSandbox, Curl Local ListTodos, Curl Deployed ListTodos], ()))"
  "listDeployedTodos (sh_deployed_answers None) ([PsSandbox, Curl Local ListTodos], ())
     = (Exit, ([PsSandbox, Curl Local ListTodos, Curl Deployed ListTodos, Sleep 1000,
                Curl Deployed ListTodos, Sleep 1000, Curl Deployed ListTodos, Sleep 1000,
                Curl Deployed ListTodos], ()))"
  by (simp_all add: run_defs world_defs)

lemma run_deployed_not_json:
  "syncTwoWay (sh_deployed_answers (Some Unparsable)) sample_getTime ([], ())
   = (Ret (),
      ([PsSandbox, Curl Local ListTodos, Curl Deployed ListTodos,
        Curl Deployed (CreateTodo \<lparr>ci_id = Some ''1'', ci_content = ''buy milk'', ci_completed = False\<rparr>)],
       ()))"
  by (simp add: run_defs world_defs sample_defs)

lemma run_deployed_list_fails:
  "syncTwoWay (sh_deployed_answers None) sample_getTime ([], ())
   = (Exit, ([PsSandbox, Curl Local ListTodos, Curl Deployed ListTodos, Sleep 1000,
              Curl Deployed ListTodos, Sleep 1000, Curl Deployed ListTodos, Sleep 1000,
              Curl Deployed ListTodos], ()))"
  by (simp add: run_defs world_defs sample_defs)

lemma run_wait_fails:
  "syncTwoWay sh_wait_fails sample_getTime ([], ())
   = (Exit, (failed_probe @ [StartSandbox, Sleep 5000, Sleep 1000, Sleep 5000, Sleep 1000,
                             Sleep 5000, Sleep 1000, Sleep 5000], ()))"
  by (simp add: run_defs world_defs sample_defs)

lemma lists_no_write:
  assumes "listLocalTodos sh s = (r1, s1)" and "listDeployedTodos sh s1 = (r2, s2)"
  shows "\<exists>cs. fst s2 = fst s @ cs \<and> (\<forall>c \<in> set cs. \<not> is_write_to Local c \<and> \<not> is_write_to Deployed c)"
proof -
  have "extends sh (request_commands Local ListTodos \<union> request_commands Deployed ListTodos) s s2"
    using extends_listLocalTodos[OF assms(1)] extends_listDeployedTodos[OF assms(2)]
    by (rule extends_trans)
  from extendsD[OF this, of "\<lambda>c. \<not> is_write_to Local c \<and> \<not> is_write_to Deployed c"]
  show ?thesis using no_write_list by blast
qed

section \<open>Runs against the backend model\<close>

lemma backend_request_Some: "\<exists>out. fst (backend_request r q b) = Some out"
  by (cases q) (auto simp: backend_request_def split: prod.splits option.splits)

lemma execute_backend_request:
  "execute backend_sh (Curl r q) opts (tr, b)
     = (Ret (fst (backend_request r q b)), (tr @ [Curl r q], snd (backend_request r q b)))"
proof -
  obtain out where o: "fst (backend_request r q b) = Some out"
    using backend_request_Some by blast
  then have "backend_sh (Curl r q) b = (Some out, snd (backend_request r q b))"
    by (cases "backend_request r q b") (simp add: backend_sh_def)
  then have "execute backend_sh (Curl r q) opts (tr, b)
      = (Ret (Some out), (tr @ [Curl r q], snd (backend_request r q b)))"
    by (rule execute_first_try)
  with o show ?thesis by simp
qed

lemma ensureSandboxRunning_backend:
  "ensureSandboxRunning backend_sh (tr, b) = (Ret True, (tr @ [PsSandbox], b))"
proof -
  have "backend_sh PsSandbox b = (Some NoData, b)" by (simp add: backend_sh_def)
  then have "execute backend_sh PsSandbox opts_ignoreError (tr, b)
      = (Ret (Some NoData), (tr @ [PsSandbox], b))"
    by (rule execute_first_try)
  then show ?thesis by (simp add: ensureSandboxRunning_def)
qed

lemma localRequest_backend:
  "localRequest backend_sh q (tr, b)
     = (Ret (fst (backend_request Local q b)),
        (tr @ [PsSandbox, Curl Local q], snd (backend_request Local q b)))"
  by (simp add: localRequest_def ensureSandboxRunning_backend execute_backend_request)

lemma executeGraphQL_backend:
  "executeGraphQL backend_sh q (tr, b)
     = (graphqlResult (Ret (fst (backend_request Deployed q b))),
        (tr @ [Curl Deployed q], snd (backend_request Deployed q b)))"
  by (simp add: executeGraphQL_def execute_backend_request)

lemma listLocalTodos_backend:
  "listLocalTodos backend_sh (tr, b) = (Ret (localStore b), (tr @ [PsSandbox, Curl Local ListTodos], b))"
  by (simp add: listLocalTodos_def localRequest_backend backend_request_def store_of_def)

lemma listDeployedTodos_backend:
  "listDeployedTodos backend_sh (tr, b) = (Ret (deployedStore b), (tr @ [Curl Deployed ListTodos], b))"
  by (simp add: listDeployedTodos_def executeGraphQL_backend backend_request_def store_of_def)

lemma createResult_Ret: "\<exists>x. createResult (Ret y) = Ret x"
  by (cases "Ret y :: response option res" rule: createResult.cases) simp_all

lemma updateResult_Ret: "\<exists>x. updateResult (Ret y) = Ret x"
  by (cases "Ret y :: response option res" rule: updateResult.cases) simp_all

lemma graphqlResult_Ret: "\<exists>z. graphqlResult (Ret y) = Ret z"
  by (cases "Ret y :: response option res" rule: graphqlResult.cases) simp_all

lemma perform_backend:
  "\<exists>x tr'. perform backend_sh c (tr, b) = (Ret x, (tr', backend_call c b))"
proof (cases c)
  case (UpdateDeployedTodo t)
  obtain z where "graphqlResult (Ret (fst (backend_request Deployed (UpdateTodo (updateTodoInput t)) b))) = Ret z"
    using graphqlResult_Ret by blast
  moreover obtain x where "updateResult (Ret z) = Ret x" using updateResult_Ret by blast
  ultimately show ?thesis using UpdateDeployedTodo
    by (simp add: updateDeployedTodo_def executeGraphQL_backend backend_call_def)
next
  case (UpdateLocalTodo t)
  obtain x where "updateResult (Ret (fst (backend_request Local (UpdateTodo (updateTodoInput t)) b))) = Ret x"
    using updateResult_Ret by blast
  then show ?thesis using UpdateLocalTodo
    by (simp add: updateLocalTodo_def localRequest_backend backend_call_def)
next
  case (CreateDeployedTodo t)
  obtain z where "graphqlResult (Ret (fst (backend_request Deployed (CreateTodo (createTodoInput t)) b))) = Ret z"
    using graphqlResult_Ret by blast
  moreover obtain x where "createResult (Ret z) = Ret x" using createResult_Ret by blast
  ultimately show ?thesis using CreateDeployedTodo
    by (simp add: createDeployedTodo_def executeGraphQL_backend backend_call_def)
next
  case (CreateLocalTodo t)
  obtain x where "createResult (Ret (fst (backend_request Local (CreateTodo (createTodoInput t)) b))) = Ret x"
    using createResult_Ret by blast
  then show ?thesis using CreateLocalTodo
    by (simp add: createLocalTodo_def localRequest_backend backend_call_def)
qed

lemma run_calls_backend:
  "\<exists>tr'. run_calls backend_sh cs (tr, b) = (Ret (), (tr', foldl (\<lambda>b c. backend_call c b) b cs))"
proof (induction cs arbitrary: tr b)
  case Nil show ?case by simp
next
  case (Cons c cs)
  obtain x tr1 where p: "perform backend_sh c (tr, b) = (Ret x, (tr1, backend_call c b))"
    using perform_backend by blast
  from Cons[of tr1 "backend_call c b"] p show ?case by simp
qed

lemma syncTwoWay_backend:
  "\<exists>tr'. syncTwoWay backend_sh getTime (tr, b)
     = (Ret (), (tr', foldl (\<lambda>b c. backend_call c b) b
                        (syncTwoWay_calls getTime (localStore b) (deployedStore b))))"
proof -
  obtain tr' where "run_calls backend_sh (syncTwoWay_calls getTime (localStore b) (deployedStore b))
        (tr @ [PsSandbox, Curl Local ListTodos] @ [Curl Deployed ListTodos], b)
      = (Ret (), (tr', foldl (\<lambda>b c. backend_call c b) b
                        (syncTwoWay_calls getTime (localStore b) (deployedStore b))))"
    using run_calls_backend by blast
  then show ?thesis
    by (simp add: syncTwoWay_def sync_with_def listLocalTodos_backend listDeployedTodos_backend)
qed

lemma find_todo_append:
  "find_todo j (st @ [t]) =
     (case find_todo j st of Some x \<Rightarrow> Some x | None \<Rightarrow> if id_todo t = j then Some t else None)"
  unfolding find_todo_def by (induction st) auto

lemma find_todo_replace:
  "id_todo t = i \<Longrightarrow>
   find_todo j (map (\<lambda>r. if id_todo r = i then t else r) st) =
     (if j = i then (case find_todo i st of None \<Rightarrow> None | Some old \<Rightarrow> Some t) else find_todo j st)"
  unfolding find_todo_def by (induction st) auto

lemma store_update_lookup:
  "find_todo j (snd (store_update now inp st)) =
     (if j = ui_id inp then
        (case find_todo j st of
           None \<Rightarrow> None
         | Some old \<Rightarrow> Some (old\<lparr>content := ui_content inp, completed := ui_completed inp,
                                 updatedAt := now\<rparr>))
      else find_todo j st)"
proof (cases "find_todo (ui_id inp) st")
  case None
  then show ?thesis by (simp add: store_update_def)
next
  case (Some old)
  then have i: "id_todo old = ui_id inp" by (simp add: find_todo_Some)
  show ?thesis
    using Some i by (simp add: store_update_def Let_def find_todo_replace)
qed

lemma store_create_lookup:
  "ci_id inp = Some i \<Longrightarrow>
   find_todo j (snd (store_create fresh now inp st)) =
     (if j = i then
        (case find_todo j st of
           Some x \<Rightarrow> Some x
         | None \<Rightarrow> Some \<lparr>id_todo = i, content = ci_content inp, completed = ci_completed inp,
                          createdAt = now, updatedAt = now\<rparr>)
      else find_todo j st)"
  by (cases "find_todo i st")
     (auto simp: store_create_def Let_def find_todo_append split: option.splits)

lemma store_of_set_store:
  "store_of r (set_store r' st b) = (if r = r' then st else store_of r b)"
  by (cases r; cases r') (simp_all add: store_of_def set_store_def)

lemma store_of_ticks [simp]: "store_of r (b\<lparr>ticks := n\<rparr>) = store_of r b"
  by (cases r) (simp_all add: store_of_def)

lemma store_update_unchanged:
  "fst (store_update now inp st) = None \<Longrightarrow> snd (store_update now inp st) = st"
  by (simp add: store_update_def Let_def split: option.splits)

lemma store_create_unchanged:
  "fst (store_create fresh now inp st) = None \<Longrightarrow> snd (store_create fresh now inp st) = st"
  by (simp add: store_create_def Let_def split: option.splits)

lemma backend_request_store:
  "store_of r (snd (backend_request r' q b)) =
     (if r = r' then
        (case q of
           ListTodos \<Rightarrow> store_of r b
         | CreateTodo inp \<Rightarrow> snd (store_create (newId b (ticks b)) (clock b (ticks b)) inp (store_of r b))
         | UpdateTodo inp \<Rightarrow> snd (store_update (clock b (ticks b)) inp (store_of r b)))
      else store_of r b)"
proof (cases q)
  case ListTodos
  then show ?thesis by (simp add: backend_request_def)
next
  case (CreateTodo inp)
  show ?thesis
  proof (cases "store_create (newId b (ticks b)) (clock b (ticks b)) inp (store_of r' b)")
    case (Pair x st)
    then show ?thesis
      using CreateTodo store_create_unchanged[of "newId b (ticks b)" "clock b (ticks b)" inp "store_of r' b"]
      by (cases x) (auto simp: backend_request_def store_of_set_store)
  qed
next
  case (UpdateTodo inp)
  show ?thesis
  proof (cases "store_update (clock b (ticks b)) inp (store_of r' b)")
    case (Pair x st)
    then show ?thesis
      using UpdateTodo store_update_unchanged[of "clock b (ticks b)" inp "store_of r' b"]
      by (cases x) (auto simp: backend_request_def store_of_set_store)
  qed
qed

lemma clock_backend_request [simp]: "clock (snd (backend_request r q b)) = clock b"
  by (cases q; cases r)
     (auto simp: backend_request_def set_store_def split: prod.splits option.splits)

lemma clock_backend_call [simp]: "clock (backend_call c b) = clock b"
  by (simp add: backend_call_def)

lemma clock_foldl [simp]: "clock (foldl (\<lambda>b c. backend_call c b) b cs) = clock b"
  by (induction cs arbitrary: b) simp_all

lemma backend_call_lookup:
  assumes "is_create c \<Longrightarrow> call_id c \<noteq> []"
  shows "find_todo j (store_of r (backend_call c b)) =
     (if r = call_target c \<and> j = call_id c then
        (if is_create c then
           (case find_todo j (store_of r b) of
              Some x \<Rightarrow> Some x
            | None \<Rightarrow> Some \<lparr>id_todo = j, content = content (call_todo c),
                             completed = completed (call_todo c),
                             createdAt = clock b (ticks b), updatedAt = clock b (ticks b)\<rparr>)
         else
           (case find_todo j (store_of r b) of
              None \<Rightarrow> None
            | Some old \<Rightarrow> Some (old\<lparr>content := content (call_todo c),
                                    completed := completed (call_todo c),
                                    updatedAt := clock b (ticks b)\<rparr>)))
      else find_todo j (store_of r b))"
proof (cases c)
  case (UpdateDeployedTodo t)
  then show ?thesis
    by (simp add: backend_call_def backend_request_store store_update_lookup updateTodoInput_def
          call_id_def cong: option.case_cong)
next
  case (UpdateLocalTodo t)
  then show ?thesis
    by (simp add: backend_call_def backend_request_store store_update_lookup updateTodoInput_def
          call_id_def cong: option.case_cong)
next
  case (CreateDeployedTodo t)
  then have "ci_id (createTodoInput t) = Some (id_todo t)"
    using assms by (simp add: createTodoInput_def call_id_def)
  moreover have "ci_content (createTodoInput t) = content t"
      "ci_completed (createTodoInput t) = completed t"
    by (simp_all add: createTodoInput_def)
  ultimately show ?thesis
    using CreateDeployedTodo
    by (simp add: backend_call_def backend_request_store store_create_lookup call_id_def
          cong: option.case_cong)
next
  case (CreateLocalTodo t)
  then have "ci_id (createTodoInput t) = Some (id_todo t)"
    using assms by (simp add: createTodoInput_def call_id_def)
  moreover have "ci_content (createTodoInput t) = content t"
      "ci_completed (createTodoInput t) = completed t"
    by (simp_all add: createTodoInput_def)
  ultimately show ?thesis
    using CreateLocalTodo
    by (simp add: backend_call_def backend_request_store store_create_lookup call_id_def
          cong: option.case_cong)
qed

lemma backend_call_frame:
  "call_id c \<noteq> j \<Longrightarrow> call_id c \<noteq> [] \<Longrightarrow>
   find_todo j (store_of r (backend_call c b)) = find_todo j (store_of r b)"
  by (subst backend_call_lookup) simp_all

lemma backend_update_lookup:
  assumes "\<not> is_create c" and "find_todo (call_id c) (store_of (call_target c) b) = Some old"
  shows "find_todo (call_id c) (store_of (call_target c) (backend_call c b))
           = Some (old\<lparr>content := content (call_todo c), completed := completed (call_todo c),
                         updatedAt := clock b (ticks b)\<rparr>)"
  using assms by (subst backend_call_lookup) simp_all

lemma foldl_lookup_frame:
  "\<forall>c \<in> set cs. call_id c \<noteq> j \<and> call_id c \<noteq> [] \<Longrightarrow>
   find_todo j (store_of r (foldl (\<lambda>b c. backend_call c b) b cs)) = find_todo j (store_of r b)"
proof (induction cs arbitrary: b)
  case Nil show ?case by simp
next
  case (Cons c cs)
  have "find_todo j (store_of r (foldl (\<lambda>b c. backend_call c b) (backend_call c b) cs))
      = find_todo j (store_of r (backend_call c b))"
    using Cons.prems by (intro Cons.IH) simp
  also have "\<dots> = find_todo j (store_of r b)"
    using Cons.prems by (intro backend_call_frame) simp_all
  finally show ?case by simp
qed

lemma syncTwoWay_calls_todos:
  "c \<in> set (syncTwoWay_calls getTime ls ds) \<Longrightarrow> call_todo c \<in> set ls \<union> set ds"
  by (auto simp: syncTwoWay_calls_def Let_def commonStep_def createStep_def
        split: option.splits if_splits dest: todosMap_mem[OF sym])

lemma no_call_lookup:
  assumes "filter (\<lambda>c. call_id c = j) cs = []" and "\<forall>c \<in> set cs. call_id c \<noteq> []"
  shows "find_todo j (store_of r (foldl (\<lambda>b c. backend_call c b) b cs)) = find_todo j (store_of r b)"
  using assms by (intro foldl_lookup_frame) (auto simp: filter_empty_conv)

lemma single_call_lookup:
  assumes "filter (\<lambda>c. call_id c = j) cs = [c]" and "\<forall>c \<in> set cs. call_id c \<noteq> []"
  shows "\<exists>b1. clock b1 = clock b
            \<and> (\<forall>r. find_todo j (store_of r b1) = find_todo j (store_of r b))
            \<and> (\<forall>r. find_todo j (store_of r (foldl (\<lambda>b c. backend_call c b) b cs))
                     = find_todo j (store_of r (backend_call c b1)))"
proof -
  from assms(1) obtain us vs where
    cs: "cs = us @ c # vs" and us: "\<forall>u \<in> set us. call_id u \<noteq> j" and vs: "[] = filter (\<lambda>c. call_id c = j) vs"
    unfolding filter_eq_Cons_iff by blast
  let ?f = "\<lambda>b c. backend_call c b"
  let ?b1 = "foldl ?f b us"
  have 1: "find_todo j (store_of r ?b1) = find_todo j (store_of r b)" for r
    using us assms(2) cs by (intro foldl_lookup_frame) simp
  have 2: "find_todo j (store_of r (foldl ?f b cs)) = find_todo j (store_of r (backend_call c ?b1))" for r
  proof -
    have "foldl ?f b cs = foldl ?f (backend_call c ?b1) vs" by (simp add: cs)
    moreover have "filter (\<lambda>c. call_id c = j) vs = []" using vs by simp
    then have "\<forall>v \<in> set vs. call_id v \<noteq> j \<and> call_id v \<noteq> []"
      using assms(2) cs by (auto simp: filter_empty_conv)
    ultimately show ?thesis by (simp add: foldl_lookup_frame)
  qed
  show ?thesis using 1 2 by (intro exI[of _ ?b1]) simp
qed

lemma after_single_call_other:
  assumes "filter (\<lambda>c. call_id c = j) cs = [c]" and "\<forall>c \<in> set cs. call_id c \<noteq> []"
    and "r \<noteq> call_target c"
  shows "find_todo j (store_of r (foldl (\<lambda>b c. backend_call c b) b cs)) = find_todo j (store_of r b)"
proof -
  from single_call_lookup[OF assms(1,2), of b] obtain b1 where
    b1: "\<forall>r. find_todo j (store_of r b1) = find_todo j (store_of r b)"
        "\<forall>r. find_todo j (store_of r (foldl (\<lambda>b c. backend_call c b) b cs))
                     = find_todo j (store_of r (backend_call c b1))"
    by blast
  have "c \<in> set (filter (\<lambda>c. call_id c = j) cs)" using assms(1) by simp
  then have ne: "call_id c \<noteq> []" using assms(2) by auto
  have "find_todo j (store_of r (backend_call c b1)) = find_todo j (store_of r b1)"
    using assms(3) ne by (subst backend_call_lookup) simp_all
  with b1 show ?thesis by simp
qed

lemma after_single_call_target:
  assumes "filter (\<lambda>c. call_id c = j) cs = [c]" and "\<forall>c \<in> set cs. call_id c \<noteq> []"
    and "is_create c \<longleftrightarrow> find_todo j (store_of (call_target c) b) = None"
  shows "\<exists>d. find_todo j (store_of (call_target c) (foldl (\<lambda>b c. backend_call c b) b cs)) = Some d
             \<and> written_from b (call_todo c) d"
proof -
  from single_call_lookup[OF assms(1,2), of b] obtain b1 where
    b1: "clock b1 = clock b" "\<forall>r. find_todo j (store_of r b1) = find_todo j (store_of r b)"
        "\<forall>r. find_todo j (store_of r (foldl (\<lambda>b c. backend_call c b) b cs))
                     = find_todo j (store_of r (backend_call c b1))"
    by blast
  have mem: "c \<in> set (filter (\<lambda>c. call_id c = j) cs)" using assms(1) by simp
  then have j: "call_id c = j" and ne: "call_id c \<noteq> []" using assms(2) by auto
  show ?thesis
  proof (cases "is_create c")
    case True
    then have "find_todo j (store_of (call_target c) b1) = None" using assms(3) b1(2) by simp
    then have "find_todo j (store_of (call_target c) (backend_call c b1))
        = Some \<lparr>id_todo = j, content = content (call_todo c), completed = completed (call_todo c),
                createdAt = clock b1 (ticks b1), updatedAt = clock b1 (ticks b1)\<rparr>"
      using True j ne by (subst backend_call_lookup) simp_all
    then show ?thesis using b1 j by (simp add: written_from_def call_id_def)
  next
    case False
    then obtain old where old: "find_todo j (store_of (call_target c) b1) = Some old"
      using assms(3) b1(2) by auto
    then have "find_todo j (store_of (call_target c) (backend_call c b1))
        = Some (old\<lparr>content := content (call_todo c), completed := completed (call_todo c),
                      updatedAt := clock b1 (ticks b1)\<rparr>)"
      using False j backend_update_lookup[of c b1 old] by simp
    moreover have "id_todo old = j" using old by (simp add: find_todo_Some)
    ultimately show ?thesis using b1 j by (simp add: written_from_def call_id_def)
  qed
qed

section \<open>Facts about the runs of sync-data.js\<close>

















section \<open>Newer wins\<close>

text \<open>
  C2. For an id present in both replicas (ids unique within a replica), when the local
  record's parsed \<open>updatedAt\<close> is strictly greater than the deployed record's, the calls
  that syncTwoWay makes for that id are exactly one: updateDeployedTodo with the local
  record. When the deployed record's is strictly greater, exactly one:
  updateLocalTodo with the deployed record.
\<close>

theorem newer_wins:
  assumes "distinct (map id_todo localTodos)" and "distinct (map id_todo deployedTodos)"
    and "a \<in> set localTodos" and "b \<in> set deployedTodos" and "id_todo a = id_todo b"
    and "getTime (updatedAt a) = Some ta" and "getTime (updatedAt b) = Some tb"
  shows "(ta > tb \<longrightarrow>
           filter (\<lambda>c. call_id c = id_todo a) (syncTwoWay_calls getTime localTodos deployedTodos)
             = [UpdateDeployedTodo a])
       \<and> (tb > ta \<longrightarrow>
           filter (\<lambda>c. call_id c = id_todo a) (syncTwoWay_calls getTime localTodos deployedTodos)
             = [UpdateLocalTodo b])"
  using syncTwoWay_calls_common[OF assms(1-5), of getTime] assms(6,7) by simp

theorem newer_wins_witness:
  "filter (\<lambda>c. call_id c = id_todo todo_new) (syncTwoWay_calls sample_getTime [todo_new] [todo_old])
     = [UpdateDeployedTodo todo_new]
   \<and> filter (\<lambda>c. call_id c = id_todo todo_old) (syncTwoWay_calls sample_getTime [todo_old] [todo_new])
     = [UpdateLocalTodo todo_new]"
  using newer_wins[of "[todo_new]" "[todo_old]" todo_new todo_old sample_getTime
          1704153600000 1704067200000]
        newer_wins[of "[todo_old]" "[todo_new]" todo_old todo_new sample_getTime
          1704067200000 1704153600000]
  by (simp add: sample_defs)

section \<open>Retries\<close>



section \<open>One-way runs\<close>

text \<open>
  C7. Whatever the world does, the commands that syncLocalToDeployed runs contain no
  create or update request to the local side, so the state of the world after the run
  is the result of those commands alone; syncDeployedToLocal runs no create or update
  request to the deployed side. The calls of the local-to-deployed loop are all
  createDeployedTodo or updateDeployedTodo, those of the other loop createLocalTodo or
  updateLocalTodo. Against the backend model, the store of the side that is only read
  is the same after the run as before.
\<close>

theorem one_way_mode_restriction:
  "(syncLocalToDeployed sh getTime s = (r, s') \<longrightarrow>
      (\<exists>cs. fst s' = fst s @ cs \<and> (\<forall>c \<in> set cs. \<not> is_write_to Local c) \<and>
            snd s' = replay sh cs (snd s)))
   \<and> (syncDeployedToLocal sh getTime s = (r, s') \<longrightarrow>
      (\<exists>cs. fst s' = fst s @ cs \<and> (\<forall>c \<in> set cs. \<not> is_write_to Deployed c) \<and>
            snd s' = replay sh cs (snd s)))
   \<and> (\<forall>c \<in> set (syncLocalToDeployed_calls getTime ls ds). call_target c = Deployed)
   \<and> (\<forall>c \<in> set (syncDeployedToLocal_calls getTime ls ds). call_target c = Local)
   \<and> (syncLocalToDeployed backend_sh getTime (tr, b) = (r', (tr', b')) \<longrightarrow>
        localStore b' = localStore b)
   \<and> (syncDeployedToLocal backend_sh getTime (tr, b) = (r', (tr', b')) \<longrightarrow>
        deployedStore b' = deployedStore b)"
proof -
  have l: "\<exists>cs. fst s' = fst s @ cs \<and> (\<forall>c \<in> set cs. \<not> is_write_to Local c) \<and>
            snd s' = replay sh cs (snd s)"
    if "syncLocalToDeployed sh getTime s = (r, s')" for sh :: "'w shell" and s r s'
    using that unfolding syncLocalToDeployed_def
    by (rule one_way_no_write) (simp add: localToDeployed_targets)
  have d: "\<exists>cs. fst s' = fst s @ cs \<and> (\<forall>c \<in> set cs. \<not> is_write_to Deployed c) \<and>
            snd s' = replay sh cs (snd s)"
    if "syncDeployedToLocal sh getTime s = (r, s')" for sh :: "'w shell" and s r s'
    using that unfolding syncDeployedToLocal_def
    by (rule one_way_no_write) (simp add: deployedToLocal_targets)
  have bl: "localStore b' = localStore b"
    if "syncLocalToDeployed backend_sh getTime (tr, b) = (r', (tr', b'))"
    using l[OF that] replay_frame[of _ Local b] by (auto simp: store_of_def)
  have bd: "deployedStore b' = deployedStore b"
    if "syncDeployedToLocal backend_sh getTime (tr, b) = (r', (tr', b'))"
    using d[OF that] replay_frame[of _ Deployed b] by (auto simp: store_of_def)
  show ?thesis
    using l d bl bd localToDeployed_targets deployedToLocal_targets by blast
qed

theorem one_way_mode_restriction_witness:
  "syncLocalToDeployed backend_sh sample_getTime
          ([], sample_backend [todo_new] [todo_old, todo3_deployed])
   = (Ret (),
      ([PsSandbox, Curl Local ListTodos, Curl Deployed ListTodos,
        Curl Deployed (UpdateTodo \<lparr>ui_id = ''1'', ui_content = ''buy milk'', ui_completed = False\<rparr>)],
       (sample_backend [todo_new]
          [todo_old\<lparr>content := ''buy milk'', completed := False,
                    updatedAt := ''2024-06-01T00:00:00.000Z''\<rparr>, todo3_deployed])\<lparr>ticks := 1\<rparr>))
   \<and> map call_target (syncLocalToDeployed_calls sample_getTime [todo_new] [todo_old, todo3_deployed])
       = [Deployed]
   \<and> map call_target (syncDeployedToLocal_calls sample_getTime [todo_new] [todo_old, todo3_deployed])
       = [Local]
   \<and> deployedStore (snd (snd (syncDeployedToLocal backend_sh sample_getTime
          ([], sample_backend [todo_new] [todo_old, todo3_deployed]))))
       = [todo_old, todo3_deployed]"
proof -
  have c1: "map call_target (syncLocalToDeployed_calls sample_getTime [todo_new] [todo_old, todo3_deployed])
       = [Deployed]"
    by (simp add: syncLocalToDeployed_calls_def localToDeployedStep_def todosMap_def sample_defs)
  have c2: "map call_target (syncDeployedToLocal_calls sample_getTime [todo_new] [todo_old, todo3_deployed])
       = [Local]"
    by (simp add: syncDeployedToLocal_calls_def deployedToLocalStep_def todosMap_def sample_defs)
  have d: "deployedStore (snd (snd (syncDeployedToLocal backend_sh sample_getTime
          ([], sample_backend [todo_new] [todo_old, todo3_deployed]))))
       = [todo_old, todo3_deployed]"
    unfolding run_deployed_to_local by (simp add: sample_backend_def)
  show ?thesis
    using one_way_mode_restriction[where sh = backend_sh and getTime = sample_getTime
            and s = "([], sample_backend [todo_new] [todo_old, todo3_deployed])"
            and r = "Ret ()"
            and s' = "snd (syncLocalToDeployed backend_sh sample_getTime
                        ([], sample_backend [todo_new] [todo_old, todo3_deployed]))"
            and ls = "[todo_new]" and ds = "[todo_old, todo3_deployed]"
            and tr = "[]" and b = "sample_backend [todo_new] [todo_old, todo3_deployed]"
            and r' = "Ret ()"
            and tr' = "fst (snd (syncDeployedToLocal backend_sh sample_getTime
                        ([], sample_backend [todo_new] [todo_old, todo3_deployed])))"
            and b' = "snd (snd (syncDeployedToLocal backend_sh sample_getTime
                        ([], sample_backend [todo_new] [todo_old, todo3_deployed])))"] c1 c2 d
    by (simp add: run_local_to_deployed)
qed

section \<open>Equal timestamps\<close>




section \<open>Records on one side only\<close>




section \<open>Timestamps that are no dates\<close>

text \<open>
  C9, as amended. A record whose \<open>updatedAt\<close> does not parse is not excluded: when its
  id is on the other side too, no update is called for that id in either direction (a
  comparison with NaN is false), and this holds whichever of the two records has the
  bad timestamp; when its id is on one side only, it is created on the other side like
  any other record. In the merge of sync-data.js such a local record is added when its
  id is new and dropped in favour of the cloud's record otherwise.
\<close>

theorem unparsable_timestamp:
  assumes "distinct (map id_todo ls)" and "distinct (map id_todo ds)"
  shows "(\<forall>a \<in> set ls. getTime (updatedAt a) = None \<longrightarrow>
            filter (\<lambda>c. call_id c = id_todo a) (syncTwoWay_calls getTime ls ds)
              = (if id_todo a \<in> id_todo ` set ds then [] else [CreateDeployedTodo a])
            \<and> find_todo (id_todo a) (mergedItems getTime ls ds)
              = (case find_todo (id_todo a) ds of None \<Rightarrow> Some a | Some d \<Rightarrow> Some d))
       \<and> (\<forall>b \<in> set ds. getTime (updatedAt b) = None \<longrightarrow>
            filter (\<lambda>c. call_id c = id_todo b) (syncTwoWay_calls getTime ls ds)
              = (if id_todo b \<in> id_todo ` set ls then [] else [CreateLocalTodo b])
            \<and> find_todo (id_todo b) (mergedItems getTime ls ds) = Some b)"
proof (intro conjI ballI impI)
  fix a assume a: "a \<in> set ls" and bad: "getTime (updatedAt a) = None"
  show "filter (\<lambda>c. call_id c = id_todo a) (syncTwoWay_calls getTime ls ds)
          = (if id_todo a \<in> id_todo ` set ds then [] else [CreateDeployedTodo a])"
  proof (cases "id_todo a \<in> id_todo ` set ds")
    case True
    then obtain b where b: "b \<in> set ds" "id_todo a = id_todo b" by auto
    from syncTwoWay_calls_common[OF assms a b, of getTime] bad True
    show ?thesis by (simp add: js_gt_None)
  next
    case False
    with syncTwoWay_calls_localOnly[OF assms(1) a False, of getTime] show ?thesis by simp
  qed
  show "find_todo (id_todo a) (mergedItems getTime ls ds)
          = (case find_todo (id_todo a) ds of None \<Rightarrow> Some a | Some d \<Rightarrow> Some d)"
    using mergedItems_find[OF assms, of "id_todo a" getTime] find_todo_mem[OF assms(1) a] bad
    by (simp add: js_gt_None cong: option.case_cong)
next
  fix b assume b: "b \<in> set ds" and bad: "getTime (updatedAt b) = None"
  show "filter (\<lambda>c. call_id c = id_todo b) (syncTwoWay_calls getTime ls ds)
          = (if id_todo b \<in> id_todo ` set ls then [] else [CreateLocalTodo b])"
  proof (cases "id_todo b \<in> id_todo ` set ls")
    case True
    then obtain a where a: "a \<in> set ls" "id_todo a = id_todo b" by auto
    from syncTwoWay_calls_common[OF assms a(1) b a(2), of getTime] bad True a(2)
    show ?thesis by (simp add: js_gt_None)
  next
    case False
    with syncTwoWay_calls_deployedOnly[OF assms(2) b False, of getTime] show ?thesis by simp
  qed
  show "find_todo (id_todo b) (mergedItems getTime ls ds) = Some b"
    using mergedItems_find[OF assms, of "id_todo b" getTime] find_todo_mem[OF assms(2) b] bad
    by (simp add: js_gt_None split: option.splits)
qed

theorem unparsable_timestamp_witness:
  "sample_getTime (updatedAt todo_bad) = None
   \<and> filter (\<lambda>c. call_id c = ''2'')
        (syncTwoWay_calls sample_getTime [todo_new, todo_bad] [todo_bad_old]) = []
   \<and> filter (\<lambda>c. call_id c = ''2'')
        (syncTwoWay_calls sample_getTime [todo_bad_old] [todo_new, todo_bad]) = []
   \<and> find_todo ''2'' (mergedItems sample_getTime [todo_new, todo_bad] [todo_bad_old]) = Some todo_bad_old"
  using unparsable_timestamp[of "[todo_new, todo_bad]" "[todo_bad_old]" sample_getTime]
        unparsable_timestamp[of "[todo_bad_old]" "[todo_new, todo_bad]" sample_getTime]
  by (simp add: sample_defs find_todo_def)

theorem unparsable_timestamp_counterexample:
  "sample_getTime (updatedAt todo_bad) = None
   \<and> syncTwoWay_calls sample_getTime [todo_bad] [] = [CreateDeployedTodo todo_bad]
   \<and> syncLocalToDeployed_calls sample_getTime [todo_bad] [] = [CreateDeployedTodo todo_bad]
   \<and> mergedItems sample_getTime [todo_bad] [] = [todo_bad]"
  by (simp add: syncTwoWay_calls_def syncLocalToDeployed_calls_def createStep_def
        localToDeployedStep_def mergedItems_def mergeStep_def todosMap_def has_def keys_def
        sample_defs)

section \<open>A list that fails\<close>

text \<open>
  C5, as amended. A list function never throws. \<open>listLocalTodos\<close> returns the empty list
  when the sandbox is not running, and when the curl command fails through all its
  retries, answers without data or answers with text that is no JSON; it ends the
  process exactly when \<open>ensureSandboxRunning\<close> does (as when its \<open>sleep 5\<close> fails through
  all retries). \<open>listDeployedTodos\<close> returns the empty list when the answer carries no data
  or is no JSON; when its curl command fails through all its retries, \<open>execute\<close> ends
  the process. Neither list function sends a create or an update. When a list function
  has returned the empty list, syncTwoWay goes on with that replica taken as empty: it
  calls the create function of that side for every record of the other side. When a list
  function has ended the process, so has the run.
\<close>

theorem list_failure_continues:
  assumes "ensureSandboxRunning sh s = (q, s0)" and "listLocalTodos sh s = (r1, s1)"
    and "listDeployedTodos sh s1 = (r2, s2)"
  shows "r1 \<noteq> Thrown \<and> r2 \<noteq> Thrown
       \<and> ((r1 = Exit) = (q = Exit))
       \<and> (q = Ret False \<longrightarrow> r1 = Ret [] \<and> s1 = s0)
       \<and> (q \<noteq> Exit \<and> (\<forall>w items. fst (sh (Curl Local ListTodos) w) \<noteq> Some (ListTodosData items))
            \<longrightarrow> r1 = Ret [])
       \<and> ((\<forall>w. \<exists>x. fst (sh (Curl Deployed ListTodos) w) = Some x \<and> (\<forall>items. x \<noteq> ListTodosData items))
            \<longrightarrow> r2 = Ret [])
       \<and> ((\<forall>w. fst (sh (Curl Deployed ListTodos) w) = None) \<and> (\<forall>w. fst (sh (Sleep 1000) w) \<noteq> None)
            \<longrightarrow> r2 = Exit)
       \<and> (r1 = Ret [] \<and> r2 = Ret ds \<and> distinct (map id_todo ds)
            \<longrightarrow> syncTwoWay sh getTime s = caught (run_calls sh (map CreateLocalTodo ds) s2))
       \<and> (r1 = Ret ls \<and> r2 = Ret [] \<and> distinct (map id_todo ls)
            \<longrightarrow> syncTwoWay sh getTime s = caught (run_calls sh (map CreateDeployedTodo ls) s2))
       \<and> (r1 = Exit \<longrightarrow> syncTwoWay sh getTime s = (Exit, s1))
       \<and> (r1 \<noteq> Exit \<and> r2 = Exit \<longrightarrow> syncTwoWay sh getTime s = (Exit, s2))
       \<and> (\<exists>cs. fst s2 = fst s @ cs
             \<and> (\<forall>c \<in> set cs. \<not> is_write_to Local c \<and> \<not> is_write_to Deployed c))"
proof -
  note l = listLocalTodos_cases[OF assms(1,2)] and d = listDeployedTodos_cases[OF assms(3)]
  have 1: "r1 = Ret [] \<and> r2 = Ret ds \<and> distinct (map id_todo ds)
      \<longrightarrow> syncTwoWay sh getTime s = caught (run_calls sh (map CreateLocalTodo ds) s2)"
    using assms(2,3) by (simp add: syncTwoWay_def sync_with_def syncTwoWay_calls_empty_local)
  have 2: "r1 = Ret ls \<and> r2 = Ret [] \<and> distinct (map id_todo ls)
      \<longrightarrow> syncTwoWay sh getTime s = caught (run_calls sh (map CreateDeployedTodo ls) s2)"
    using assms(2,3) by (simp add: syncTwoWay_def sync_with_def syncTwoWay_calls_empty_deployed)
  have 3: "r1 = Exit \<longrightarrow> syncTwoWay sh getTime s = (Exit, s1)"
    using assms(2) by (simp add: syncTwoWay_def sync_with_def)
  have 4: "r1 \<noteq> Exit \<and> r2 = Exit \<longrightarrow> syncTwoWay sh getTime s = (Exit, s2)"
    using assms(2,3) l(1) by (cases r1) (simp_all add: syncTwoWay_def sync_with_def)
  note 5 = lists_no_write[OF assms(2,3)]
  have 6: "q = Ret False \<longrightarrow> r1 = Ret [] \<and> s1 = s0"
    using l(3) by (rule impI)
  have 7: "q \<noteq> Exit \<and> (\<forall>w items. fst (sh (Curl Local ListTodos) w) \<noteq> Some (ListTodosData items))
            \<longrightarrow> r1 = Ret []"
    using l(4) by (intro impI) (elim conjE)
  have 8: "(\<forall>w. \<exists>x. fst (sh (Curl Deployed ListTodos) w) = Some x \<and> (\<forall>items. x \<noteq> ListTodosData items))
            \<longrightarrow> r2 = Ret []"
    using d(2) by (rule impI)
  have 9: "(\<forall>w. fst (sh (Curl Deployed ListTodos) w) = None) \<and> (\<forall>w. fst (sh (Sleep 1000) w) \<noteq> None)
            \<longrightarrow> r2 = Exit"
    using d(3) by (intro impI) (elim conjE)
  show ?thesis
    by (intro conjI) (fact l(1) d(1) l(2) 1 2 3 4 5 6 7 8 9)+
qed

theorem list_failure_continues_witness:
  "syncTwoWay sh_local_list_fails sample_getTime ([], ())
     = caught (run_calls sh_local_list_fails [CreateLocalTodo todo_old]
         ([PsSandbox, Curl Local ListTodos, Sleep 1000, Curl Local ListTodos, Sleep 1000,
           Curl Local ListTodos, Sleep 1000, Curl Local ListTodos, Curl Deployed ListTodos], ()))
   \<and> syncTwoWay sh_deployed_no_data sample_getTime ([], ())
     = caught (run_calls sh_deployed_no_data [CreateDeployedTodo todo_new]
         ([PsSandbox, Curl Local ListTodos, Curl Deployed ListTodos], ()))
   \<and> syncTwoWay sh_sandbox_down sample_getTime ([], ())
     = caught (run_calls sh_sandbox_down [CreateLocalTodo todo_old]
         (failed_probe @ [StartSandbox, Sleep 5000] @ failed_probe @ [Curl Deployed ListTodos], ()))
   \<and> syncTwoWay sh_sandbox_down sample_getTime ([], ())
     = (Ret (),
        (failed_probe @ [StartSandbox, Sleep 5000] @ failed_probe @ [Curl Deployed ListTodos]
           @ failed_probe @ [StartSandbox, Sleep 5000] @ failed_probe, ()))
   \<and> syncTwoWay (sh_local_answers (Some NoData)) sample_getTime ([], ())
     = (Ret (),
        ([PsSandbox, Curl Local ListTodos, Curl Deployed ListTodos, PsSandbox,
          Curl Local (CreateTodo \<lparr>ci_id = Some ''1'', ci_content = ''buy bread'', ci_completed = True\<rparr>)],
         ()))
   \<and> syncTwoWay (sh_local_answers (Some Unparsable)) sample_getTime ([], ())
     = (Ret (),
        ([PsSandbox, Curl Local ListTodos, Curl Deployed ListTodos, PsSandbox,
          Curl Local (CreateTodo \<lparr>ci_id = Some ''1'', ci_content = ''buy bread'', ci_completed = True\<rparr>)],
         ()))
   \<and> syncTwoWay (sh_deployed_answers (Some Unparsable)) sample_getTime ([], ())
     = (Ret (),
        ([PsSandbox, Curl Local ListTodos, Curl Deployed ListTodos,
          Curl Deployed (CreateTodo \<lparr>ci_id = Some ''1'', ci_content = ''buy milk'', ci_completed = False\<rparr>)],
         ()))
   \<and> syncTwoWay (sh_deployed_answers None) sample_getTime ([], ())
     = (Exit, ([PsSandbox, Curl Local ListTodos, Curl Deployed ListTodos, Sleep 1000,
                Curl Deployed ListTodos, Sleep 1000, Curl Deployed ListTodos, Sleep 1000,
                Curl Deployed ListTodos], ()))
   \<and> syncTwoWay sh_wait_fails sample_getTime ([], ())
     = (Exit, (failed_probe @ [StartSandbox, Sleep 5000, Sleep 1000, Sleep 5000, Sleep 1000,
                               Sleep 5000, Sleep 1000, Sleep 5000], ()))"
proof -
  have e1: "ensureSandboxRunning sh_local_list_fails ([], ()) = (Ret True, ([PsSandbox], ()))"
    and e2: "ensureSandboxRunning sh_deployed_no_data ([], ()) = (Ret True, ([PsSandbox], ()))"
    by (simp_all add: run_defs sh_local_list_fails_def sh_deployed_no_data_def)
  have a: "syncTwoWay sh_local_list_fails sample_getTime ([], ())
     = caught (run_calls sh_local_list_fails [CreateLocalTodo todo_old]
         ([PsSandbox, Curl Local ListTodos, Sleep 1000, Curl Local ListTodos, Sleep 1000,
           Curl Local ListTodos, Sleep 1000, Curl Local ListTodos, Curl Deployed ListTodos], ()))"
    using list_failure_continues[OF e1 lists_local_list_fails, where ds = "[todo_old]"
          and ls = "[]" and getTime = sample_getTime]
    by (simp add: sh_local_list_fails_def)
  have b: "syncTwoWay sh_deployed_no_data sample_getTime ([], ())
     = caught (run_calls sh_deployed_no_data [CreateDeployedTodo todo_new]
         ([PsSandbox, Curl Local ListTodos, Curl Deployed ListTodos], ()))"
    using list_failure_continues[OF e2 lists_deployed_no_data, where ds = "[]"
          and ls = "[todo_new]" and getTime = sample_getTime]
    by (simp add: sh_deployed_no_data_def)
  have c: "syncTwoWay sh_sandbox_down sample_getTime ([], ())
     = caught (run_calls sh_sandbox_down [CreateLocalTodo todo_old]
         (failed_probe @ [StartSandbox, Sleep 5000] @ failed_probe @ [Curl Deployed ListTodos], ()))"
    using list_failure_continues[OF lists_sandbox_down, where ds = "[todo_old]"
          and ls = "[]" and getTime = sample_getTime]
    by simp
  show ?thesis
    using a b c
    by (simp add: run_sandbox_down run_local_answers run_deployed_not_json run_deployed_list_fails
          run_wait_fails)
qed

theorem list_failure_counterexample:
  "syncTwoWay sh_local_list_fails sample_getTime ([], ())
   = (Ret (),
      ([PsSandbox, Curl Local ListTodos, Sleep 1000, Curl Local ListTodos, Sleep 1000,
        Curl Local ListTodos, Sleep 1000, Curl Local ListTodos, Curl Deployed ListTodos,
        PsSandbox,
        Curl Local (CreateTodo \<lparr>ci_id = Some ''1'', ci_content = ''buy bread'', ci_completed = True\<rparr>)],
       ()))
   \<and> syncTwoWay sh_deployed_no_data sample_getTime ([], ())
   = (Ret (),
      ([PsSandbox, Curl Local ListTodos, Curl Deployed ListTodos,
        Curl Deployed (CreateTodo \<lparr>ci_id = Some ''1'', ci_content = ''buy milk'', ci_completed = False\<rparr>)],
       ()))"
  by (simp add: run_local_list_fails run_deployed_no_data)

section \<open>A write that fails\<close>

text \<open>
  C6. Records 2 and 3 are newer on the local side, so syncTwoWay is to update both on
  the deployed side. When the curl command of the first update fails every time, the
  run ends with \<open>process.exit(1)\<close> after the third retry and the update of record 3 is
  never tried: \<open>executeGraphQL\<close> runs \<open>execute\<close> without \<open>ignoreError\<close>. In the mirror
  image, where the failing update is the one on the local side, the run goes on to
  record 3 and returns.
\<close>

theorem deployed_write_failure_exits:
  "syncTwoWay_calls sample_getTime [todo2_local, todo3_local] [todo2_deployed, todo3_deployed]
     = [UpdateDeployedTodo todo2_local, UpdateDeployedTodo todo3_local]
   \<and> fst (syncTwoWay sh_update2_fails sample_getTime ([], ())) = Exit
   \<and> Curl Deployed (UpdateTodo (updateTodoInput todo3_local))
       \<notin> set (fst (snd (syncTwoWay sh_update2_fails sample_getTime ([], ()))))
   \<and> fst (syncTwoWay sh_local_update2_fails sample_getTime ([], ())) = Ret ()
   \<and> Curl Local (UpdateTodo (updateTodoInput todo3_local))
       \<in> set (fst (snd (syncTwoWay sh_local_update2_fails sample_getTime ([], ()))))"
proof -
  have "syncTwoWay_calls sample_getTime [todo2_local, todo3_local] [todo2_deployed, todo3_deployed]
     = [UpdateDeployedTodo todo2_local, UpdateDeployedTodo todo3_local]"
    by (simp add: syncTwoWay_calls_def commonStep_def createStep_def todosMap_def has_def keys_def
          sample_defs)
  then show ?thesis
    unfolding run_update2_fails run_local_update2_fails
    by (simp add: updateTodoInput_def todo3_local_def)
qed

section \<open>Convergence\<close>

text \<open>
  C1, as amended. Against a backend that does what it is asked, with ids unique within
  a replica and none of them empty, a two-way run returns normally, and afterwards: an
  id that was on one side only is on both sides; where one record was strictly newer the
  other side holds a copy written from it, with the same content and completed; the
  \<open>updatedAt\<close> of a written copy is the reading of the target's clock, not the source's
  timestamp; and records of one id whose timestamps are equal or do not parse stay as
  they were, whatever their other fields.
\<close>

theorem convergence_of_content:
  assumes "distinct (map id_todo (localStore b))" and "distinct (map id_todo (deployedStore b))"
    and "[] \<notin> id_todo ` set (localStore b)" and "[] \<notin> id_todo ` set (deployedStore b)"
    and "syncTwoWay backend_sh getTime (tr, b) = (r, (tr', b'))"
  shows "r = Ret () \<and> (\<forall>i. outcome getTime b b' i)"
proof -
  let ?A = "localStore b" and ?B = "deployedStore b"
  let ?cs = "syncTwoWay_calls getTime ?A ?B"
  let ?f = "\<lambda>b c. backend_call c b"
  from syncTwoWay_backend[of getTime tr b] assms(5)
  have r: "r = Ret ()" and b': "b' = foldl ?f b ?cs" by auto
  have ne: "\<forall>c \<in> set ?cs. call_id c \<noteq> []"
  proof
    fix c assume "c \<in> set ?cs"
    then have "call_todo c \<in> set ?A \<union> set ?B" by (rule syncTwoWay_calls_todos)
    then have m: "id_todo (call_todo c) \<in> id_todo ` set ?A \<union> id_todo ` set ?B" by blast
    show "call_id c \<noteq> []"
    proof
      assume "call_id c = []"
      with m have "[] \<in> id_todo ` set ?A \<union> id_todo ` set ?B" by (simp only: call_id_def)
      with assms(3,4) show False by blast
    qed
  qed
  have loc: "store_of Local x = localStore x" and dep: "store_of Deployed x = deployedStore x" for x
    by (simp_all add: store_of_def)
  have "outcome getTime b b' i" for i
  proof -
    have fl: "filter (\<lambda>c. call_id c = i) ?cs =
        (case (find_todo i ?A, find_todo i ?B) of
           (Some l, Some d) \<Rightarrow> commonStep getTime (todosMap ?A) (todosMap ?B) i
         | (Some l, None) \<Rightarrow> [CreateDeployedTodo l]
         | (None, Some d) \<Rightarrow> [CreateLocalTodo d]
         | (None, None) \<Rightarrow> [])"
      by (simp add: syncTwoWay_calls_for_id todosMap_find[OF assms(1)] todosMap_find[OF assms(2)])
    show ?thesis
    proof (cases "find_todo i ?A")
      case lN: None
      show ?thesis
      proof (cases "find_todo i ?B")
        case None
        with lN fl have "filter (\<lambda>c. call_id c = i) ?cs = []" by simp
        from no_call_lookup[OF this ne, of _ b] lN None show ?thesis
          unfolding outcome_def b' by (simp add: loc[symmetric] dep[symmetric])
      next
        case (Some d0)
        with lN fl have f: "filter (\<lambda>c. call_id c = i) ?cs = [CreateLocalTodo d0]" by simp
        have 1: "find_todo i (deployedStore b') = Some d0"
          using after_single_call_other[OF f ne, of Deployed b] Some by (simp add: b' dep)
        have 2: "\<exists>l. find_todo i (localStore b') = Some l \<and> written_from b d0 l"
          using after_single_call_target[OF f ne, of b] lN by (simp add: b' loc)
        show ?thesis unfolding outcome_def using lN Some 1 2 by simp
      qed
    next
      case lS: (Some l0)
      show ?thesis
      proof (cases "find_todo i ?B")
        case None
        with lS fl have f: "filter (\<lambda>c. call_id c = i) ?cs = [CreateDeployedTodo l0]" by simp
        have 1: "find_todo i (localStore b') = Some l0"
          using after_single_call_other[OF f ne, of Local b] lS by (simp add: b' loc)
        have 2: "\<exists>d. find_todo i (deployedStore b') = Some d \<and> written_from b l0 d"
          using after_single_call_target[OF f ne, of b] None by (simp add: b' dep)
        show ?thesis unfolding outcome_def using lS None 1 2 by simp
      next
        case (Some d0)
        have cm: "filter (\<lambda>c. call_id c = i) ?cs =
            (if js_gt (getTime (updatedAt l0)) (getTime (updatedAt d0)) then [UpdateDeployedTodo l0]
             else if js_gt (getTime (updatedAt d0)) (getTime (updatedAt l0)) then [UpdateLocalTodo d0]
             else [])"
          using fl lS Some
          by (simp add: commonStep_def Let_def todosMap_find[OF assms(1)] todosMap_find[OF assms(2)])
        consider (l) "js_gt (getTime (updatedAt l0)) (getTime (updatedAt d0))"
          | (d) "\<not> js_gt (getTime (updatedAt l0)) (getTime (updatedAt d0))"
                "js_gt (getTime (updatedAt d0)) (getTime (updatedAt l0))"
          | (n) "\<not> js_gt (getTime (updatedAt l0)) (getTime (updatedAt d0))"
                "\<not> js_gt (getTime (updatedAt d0)) (getTime (updatedAt l0))"
          by blast
        then show ?thesis
        proof cases
          case l
          with cm have f: "filter (\<lambda>c. call_id c = i) ?cs = [UpdateDeployedTodo l0]" by simp
          have 1: "find_todo i (localStore b') = Some l0"
            using after_single_call_other[OF f ne, of Local b] lS by (simp add: b' loc)
          have 2: "\<exists>x. find_todo i (deployedStore b') = Some x \<and> written_from b l0 x"
            using after_single_call_target[OF f ne, of b] Some by (simp add: b' dep)
          show ?thesis unfolding outcome_def using lS Some l 1 2 by simp
        next
          case d
          with cm have f: "filter (\<lambda>c. call_id c = i) ?cs = [UpdateLocalTodo d0]" by simp
          have 1: "find_todo i (deployedStore b') = Some d0"
            using after_single_call_other[OF f ne, of Deployed b] Some by (simp add: b' dep)
          have 2: "\<exists>x. find_todo i (localStore b') = Some x \<and> written_from b d0 x"
            using after_single_call_target[OF f ne, of b] lS by (simp add: b' loc)
          show ?thesis unfolding outcome_def using lS Some d 1 2 by simp
        next
          case n
          with cm have "filter (\<lambda>c. call_id c = i) ?cs = []" by simp
          from no_call_lookup[OF this ne, of _ b] lS Some n show ?thesis
            unfolding outcome_def b' by (simp add: loc[symmetric] dep[symmetric])
        qed
      qed
    qed
  qed
  with r show ?thesis by simp
qed

theorem convergence_of_content_witness:
  "syncTwoWay backend_sh sample_getTime
          ([], sample_backend [todo_new, todo_bad] [todo_old, todo3_deployed])
   = (Ret (),
      ([PsSandbox, Curl Local ListTodos, Curl Deployed ListTodos,
        Curl Deployed (UpdateTodo \<lparr>ui_id = ''1'', ui_content = ''buy milk'', ui_completed = False\<rparr>),
        Curl Deployed (CreateTodo \<lparr>ci_id = Some ''2'', ci_content = ''call home'', ci_completed = False\<rparr>),
        PsSandbox,
        Curl Local (CreateTodo \<lparr>ci_id = Some ''3'', ci_content = ''three'', ci_completed = False\<rparr>)],
       (sample_backend
          [todo_new, todo_bad,
           \<lparr>id_todo = ''3'', content = ''three'', completed = False,
              createdAt = ''2024-06-01T00:00:00.000Z'', updatedAt = ''2024-06-01T00:00:00.000Z''\<rparr>]
          [todo_old\<lparr>content := ''buy milk'', completed := False,
                    updatedAt := ''2024-06-01T00:00:00.000Z''\<rparr>,
           todo3_deployed,
           \<lparr>id_todo = ''2'', content = ''call home'', completed = False,
              createdAt = ''2024-06-01T00:00:00.000Z'', updatedAt = ''2024-06-01T00:00:00.000Z''\<rparr>])
        \<lparr>ticks := 3\<rparr>))
   \<and> (\<forall>i. outcome sample_getTime
          (sample_backend [todo_new, todo_bad] [todo_old, todo3_deployed])
          (snd (snd (syncTwoWay backend_sh sample_getTime
             ([], sample_backend [todo_new, todo_bad] [todo_old, todo3_deployed])))) i)"
proof -
  have h: "distinct (map id_todo (localStore (sample_backend [todo_new, todo_bad] [todo_old, todo3_deployed])))"
    "distinct (map id_todo (deployedStore (sample_backend [todo_new, todo_bad] [todo_old, todo3_deployed])))"
    "[] \<notin> id_todo ` set (localStore (sample_backend [todo_new, todo_bad] [todo_old, todo3_deployed]))"
    "[] \<notin> id_todo ` set (deployedStore (sample_backend [todo_new, todo_bad] [todo_old, todo3_deployed]))"
    by (simp_all add: sample_backend_def sample_defs)
  from convergence_of_content[OF h run_two_way] show ?thesis
    by (simp add: run_two_way)
qed

theorem convergence_counterexample:
  "syncTwoWay backend_sh sample_getTime ([], sample_backend [todo_new] [todo_tie])
     = (Ret (), ([PsSandbox, Curl Local ListTodos, Curl Deployed ListTodos],
                 sample_backend [todo_new] [todo_tie]))
   \<and> id_todo todo_new = id_todo todo_tie
   \<and> content todo_new \<noteq> content todo_tie
   \<and> completed todo_new \<noteq> completed todo_tie
   \<and> syncTwoWay backend_sh sample_getTime ([], sample_backend [todo_new] [todo_old])
     = (Ret (),
        ([PsSandbox, Curl Local ListTodos, Curl Deployed ListTodos,
          Curl Deployed (UpdateTodo \<lparr>ui_id = ''1'', ui_content = ''buy milk'', ui_completed = False\<rparr>)],
         (sample_backend [todo_new]
            [todo_old\<lparr>content := ''buy milk'', completed := False,
                      updatedAt := ''2024-06-01T00:00:00.000Z''\<rparr>])\<lparr>ticks := 1\<rparr>))
   \<and> updatedAt todo_new \<noteq> ''2024-06-01T00:00:00.000Z''
   \<and> syncTwoWay_calls sample_getTime [todo_new]
        [todo_old\<lparr>content := ''buy milk'', completed := False,
                  updatedAt := ''2024-06-01T00:00:00.000Z''\<rparr>]
     = [UpdateLocalTodo (todo_old\<lparr>content := ''buy milk'', completed := False,
                                  updatedAt := ''2024-06-01T00:00:00.000Z''\<rparr>)]"
proof -
  have "syncTwoWay_calls sample_getTime [todo_new]
        [todo_old\<lparr>content := ''buy milk'', completed := False,
                  updatedAt := ''2024-06-01T00:00:00.000Z''\<rparr>]
     = [UpdateLocalTodo (todo_old\<lparr>content := ''buy milk'', completed := False,
                                  updatedAt := ''2024-06-01T00:00:00.000Z''\<rparr>)]"
    by (simp add: syncTwoWay_calls_def commonStep_def createStep_def todosMap_def has_def keys_def
          sample_defs)
  moreover have "id_todo todo_new = id_todo todo_tie" "content todo_new \<noteq> content todo_tie"
    "completed todo_new \<noteq> completed todo_tie" "updatedAt todo_new \<noteq> ''2024-06-01T00:00:00.000Z''"
    by (simp_all add: sample_defs)
  ultimately show ?thesis
    unfolding run_two_way_tie run_two_way_newer by simp
qed

section \<open>What an update sends\<close>

text \<open>
  C10. The input of the updateTodo mutation is the id, the content and completed of the
  record, for updateDeployedTodo and updateLocalTodo alike. The record's createdAt and
  updatedAt are not sent: in every world the call does the same whatever they are, and
  the only requests it runs are the curl of that mutation (and, on the local side, the
  commands that look after the sandbox). Against the backend model the record written
  carries the reading of the target's clock as its updatedAt.
\<close>

theorem update_payload:
  "updateTodoInput t = \<lparr>ui_id = id_todo t, ui_content = content t, ui_completed = completed t\<rparr>
   \<and> updateDeployedTodo sh (t\<lparr>createdAt := c, updatedAt := u\<rparr>) s = updateDeployedTodo sh t s
   \<and> updateLocalTodo sh (t\<lparr>createdAt := c, updatedAt := u\<rparr>) s = updateLocalTodo sh t s
   \<and> extends sh {Curl Deployed (UpdateTodo (updateTodoInput t)), Sleep 1000} s
        (snd (updateDeployedTodo sh t s))
   \<and> extends sh (insert (Curl Local (UpdateTodo (updateTodoInput t))) sandbox_commands) s
        (snd (updateLocalTodo sh t s))
   \<and> (find_todo (id_todo t) (deployedStore b) = Some old \<longrightarrow>
        find_todo (id_todo t) (deployedStore (snd (snd (updateDeployedTodo backend_sh t (tr, b)))))
          = Some (old\<lparr>content := content t, completed := completed t,
                        updatedAt := clock b (ticks b)\<rparr>))
   \<and> (find_todo (id_todo t) (localStore b) = Some old \<longrightarrow>
        find_todo (id_todo t) (localStore (snd (snd (updateLocalTodo backend_sh t (tr, b)))))
          = Some (old\<lparr>content := content t, completed := completed t,
                        updatedAt := clock b (ticks b)\<rparr>))"
proof -
  have 1: "updateTodoInput (t\<lparr>createdAt := c, updatedAt := u\<rparr>) = updateTodoInput t"
    by (simp add: updateTodoInput_def)
  have 2: "extends sh {Curl Deployed (UpdateTodo (updateTodoInput t)), Sleep 1000} s
        (snd (updateDeployedTodo sh t s))"
    using extends_perform[of sh "UpdateDeployedTodo t" s "fst (updateDeployedTodo sh t s)"
            "snd (updateDeployedTodo sh t s)"]
    by (simp add: request_commands_def)
  have 3: "extends sh (insert (Curl Local (UpdateTodo (updateTodoInput t))) sandbox_commands) s
        (snd (updateLocalTodo sh t s))"
    using extends_perform[of sh "UpdateLocalTodo t" s "fst (updateLocalTodo sh t s)"
            "snd (updateLocalTodo sh t s)"]
    by (simp add: request_commands_def)
  have 4: "find_todo (id_todo t) (deployedStore (snd (snd (updateDeployedTodo backend_sh t (tr, b)))))
          = Some (old\<lparr>content := content t, completed := completed t,
                        updatedAt := clock b (ticks b)\<rparr>)"
    if "find_todo (id_todo t) (deployedStore b) = Some old"
    using perform_backend[of "UpdateDeployedTodo t" tr b]
      backend_update_lookup[of "UpdateDeployedTodo t" b old] that
    by (auto simp: call_id_def store_of_def)
  have 5: "find_todo (id_todo t) (localStore (snd (snd (updateLocalTodo backend_sh t (tr, b)))))
          = Some (old\<lparr>content := content t, completed := completed t,
                        updatedAt := clock b (ticks b)\<rparr>)"
    if "find_todo (id_todo t) (localStore b) = Some old"
    using perform_backend[of "UpdateLocalTodo t" tr b]
      backend_update_lookup[of "UpdateLocalTodo t" b old] that
    by (auto simp: call_id_def store_of_def)
  show ?thesis
    using 1 2 3 4 5
    by (simp add: updateDeployedTodo_def updateLocalTodo_def) (simp add: updateTodoInput_def)
qed

theorem update_payload_witness:
  "find_todo ''1'' (deployedStore (snd (snd (updateDeployedTodo backend_sh todo_new
          ([], sample_backend [todo_old] [todo_old])))))
     = Some (todo_old\<lparr>content := ''buy milk'', completed := False,
                      updatedAt := ''2024-06-01T00:00:00.000Z''\<rparr>)
   \<and> find_todo ''1'' (localStore (snd (snd (updateLocalTodo backend_sh todo_new
          ([], sample_backend [todo_old] [todo_old])))))
     = Some (todo_old\<lparr>content := ''buy milk'', completed := False,
                      updatedAt := ''2024-06-01T00:00:00.000Z''\<rparr>)
   \<and> updatedAt todo_new = ''2024-01-02T00:00:00.000Z''"
  using update_payload[where t = todo_new and b = "sample_backend [todo_old] [todo_old]"
          and old = todo_old and tr = "[]" and sh = backend_sh
          and s = "([], sample_backend [todo_old] [todo_old])"
          and c = "''2024-06-01T00:00:00.000Z''" and u = "''2024-06-01T00:00:00.000Z''"]
  by (simp add: sample_backend_def find_todo_def todo_new_def todo_old_def)

end
